theory Spec2Isabelle
  imports Main "HOL-Library.Sublist"
begin

section \<open>Python values and exceptions\<close>

text \<open>
  The integration is one Python module, \<^verbatim>\<open>custom_components/extended_openai_conversation/__init__.py\<close>.
  A Python \<^verbatim>\<open>str\<close> is a \<open>string\<close> (a character of the model is a code point below 256),
  a value produced by \<^verbatim>\<open>json.loads\<close> is a \<open>json\<close>, and a \<^verbatim>\<open>dict\<close> with string keys
  is an association list with distinct keys, in insertion order. A JSON number is kept
  as its literal: the module never computes with one.
\<close>

datatype json =
    JNull
  | JBool bool
  | JNumber string
  | JString string
  | JArray "json list"
  | JObject "(string \<times> json) list"

type_synonym dict = "(string \<times> json) list"

text \<open>
  Every exception the module raises, catches or lets through. \<open>OtherException\<close> is any
  exception of the environment that belongs to none of the classes the module names.
\<close>

datatype error =
    OpenAIError string
  | AuthenticationError string
  | ConfigEntryNotReady string
  | HomeAssistantError string
  | TemplateError string
  | FunctionNotFound string
  | FunctionLoadFailed
  | InvalidFunction string
  | ParseArgumentsFailed string
  | KeyError string
  | IndexError
  | AttributeError
  | NameError string
  | OtherException string

text \<open>
  \<^verbatim>\<open>except OpenAIError\<close>: the client library derives \<^verbatim>\<open>AuthenticationError\<close> from
  \<^verbatim>\<open>OpenAIError\<close>.
\<close>

fun is_OpenAIError :: "error \<Rightarrow> bool" where
  "is_OpenAIError (OpenAIError _) = True"
| "is_OpenAIError (AuthenticationError _) = True"
| "is_OpenAIError _ = False"

text \<open>
  Modelled from the spec: the module \<^verbatim>\<open>exceptions.py\<close> of the integration, which declares
  \<^verbatim>\<open>FunctionNotFound\<close>, \<^verbatim>\<open>FunctionLoadFailed\<close>, \<^verbatim>\<open>InvalidFunction\<close> and
  \<^verbatim>\<open>ParseArgumentsFailed\<close>, is not among the sources. The spec has a malformed
  function-call argument surface as a parse-failure condition of the turn, which the
  handler \<^verbatim>\<open>except HomeAssistantError\<close> of \<^verbatim>\<open>async_process\<close> is the only one to give, so the
  integration's own exceptions are taken to derive from \<^verbatim>\<open>HomeAssistantError\<close>, as the
  host's \<^verbatim>\<open>TemplateError\<close> and \<^verbatim>\<open>ConfigEntryNotReady\<close> do. The built-in exceptions of
  Python do not.
\<close>

fun is_HomeAssistantError :: "error \<Rightarrow> bool" where
  "is_HomeAssistantError (HomeAssistantError _) = True"
| "is_HomeAssistantError (TemplateError _) = True"
| "is_HomeAssistantError (ConfigEntryNotReady _) = True"
| "is_HomeAssistantError (FunctionNotFound _) = True"
| "is_HomeAssistantError FunctionLoadFailed = True"
| "is_HomeAssistantError (InvalidFunction _) = True"
| "is_HomeAssistantError (ParseArgumentsFailed _) = True"
| "is_HomeAssistantError _ = False"

section \<open>String operations of the module\<close>

text \<open>\<^verbatim>\<open>sub in s\<close>.\<close>

fun str_contains :: "string \<Rightarrow> string \<Rightarrow> bool" where
  "str_contains sub [] = (sub = [])"
| "str_contains sub (c # cs) = (prefix sub (c # cs) \<or> str_contains sub cs)"

text \<open>
  \<^verbatim>\<open>s.replace(old, new)\<close>: the occurrences of \<open>old\<close> are replaced from the left and do
  not overlap; the text after a replaced occurrence is scanned, the replacement is not.
  With an empty \<open>old\<close> Python puts \<open>new\<close> around every character.
\<close>

function str_replace :: "string \<Rightarrow> string \<Rightarrow> string \<Rightarrow> string" where
  "str_replace [] old new = (if old = [] then new else [])"
| "str_replace (c # cs) old new =
     (if old = [] then new @ c # str_replace cs old new
      else if prefix old (c # cs) then new @ str_replace (drop (length old) (c # cs)) old new
      else c # str_replace cs old new)"
  by pat_completeness auto
termination
  by (relation "measure (\<lambda>(s, old, new). length s)") auto

text \<open>\<^verbatim>\<open>s.strip()\<close> removes the whitespace at both ends.\<close>

definition py_isspace :: "char \<Rightarrow> bool" where
  "py_isspace c =
     (c \<in> set [CHR 0x09, CHR 0x0A, CHR 0x0B, CHR 0x0C, CHR 0x0D, CHR 0x1C, CHR 0x1D,
                CHR 0x1E, CHR 0x1F, CHR 0x20, CHR 0x85, CHR 0xA0])"

definition str_strip :: "string \<Rightarrow> string" where
  "str_strip s = rev (dropWhile py_isspace (rev (dropWhile py_isspace s)))"

text \<open>
  \<^verbatim>\<open>s.split(sep)\<close> for a separator of one character, the only kind the module uses
  (\<^verbatim>\<open>service.split(".")\<close>). The result is never empty.
\<close>

fun str_split :: "string \<Rightarrow> char \<Rightarrow> string list" where
  "str_split [] sep = [[]]"
| "str_split (c # cs) sep =
     (if c = sep then [] # str_split cs sep
      else (case str_split cs sep of
              [] \<Rightarrow> [[c]]
            | p # ps \<Rightarrow> (c # p) # ps))"

text \<open>\<^verbatim>\<open>xs[i]\<close> on a Python list raises \<^verbatim>\<open>IndexError\<close> out of range.\<close>

definition py_index :: "'a list \<Rightarrow> nat \<Rightarrow> error + 'a" where
  "py_index xs i = (if i < length xs then Inr (xs ! i) else Inl IndexError)"

subsection \<open>The pattern \<^verbatim>\<open>\{.*?\}\<close>\<close>

text \<open>
  Both \<^verbatim>\<open>extract_json_objects\<close> and \<^verbatim>\<open>remove_json_objects\<close> use the regular expression
  \<^verbatim>\<open>r'\{.*?\}'\<close> with no flag. \<open>match_lazy\<close> is \<^verbatim>\<open>.*?\}\<close> at the head of a text: the
  lazy star tries the closing brace first and otherwise consumes one character, which
  must not be a newline (the dot without \<^verbatim>\<open>re.DOTALL\<close>). It gives the matched text and
  the rest.
\<close>

fun match_lazy :: "string \<Rightarrow> (string \<times> string) option" where
  "match_lazy [] = None"
| "match_lazy (c # cs) =
     (if c = CHR ''}'' then Some ([c], cs)
      else if c = CHR ''\<newline>'' then None
      else (case match_lazy cs of
              None \<Rightarrow> None
            | Some (m, r) \<Rightarrow> Some (c # m, r)))"

definition match_json_pattern :: "string \<Rightarrow> (string \<times> string) option" where
  "match_json_pattern s =
     (case s of
        [] \<Rightarrow> None
      | c # cs \<Rightarrow>
          (if c = CHR ''{'' then
             (case match_lazy cs of
                None \<Rightarrow> None
              | Some (m, r) \<Rightarrow> Some (c # m, r))
           else None))"

lemma match_lazy_length: "match_lazy cs = Some (m, r) \<Longrightarrow> length r < length cs"
  by (induction cs arbitrary: m) (auto split: if_splits option.splits)

lemma match_json_pattern_length:
  "match_json_pattern s = Some (m, r) \<Longrightarrow> length r < length s"
  by (auto simp: match_json_pattern_def split: list.splits if_splits option.splits
           dest: match_lazy_length)

text \<open>
  \<^verbatim>\<open>re.findall(json_pattern, text)\<close>: the matches from the left, without overlap. Where
  the pattern does not match, the scan moves on by one character.
\<close>

function re_findall :: "string \<Rightarrow> string list" where
  "re_findall [] = []"
| "re_findall (c # cs) =
     (case match_json_pattern (c # cs) of
        Some (m, r) \<Rightarrow> m # re_findall r
      | None \<Rightarrow> re_findall cs)"
  by pat_completeness auto
termination
  by (relation "measure length") (auto dest: match_json_pattern_length)

text \<open>\<^verbatim>\<open>re.sub(json_pattern, '', text)\<close>: the text without those matches.\<close>

function re_sub :: "string \<Rightarrow> string" where
  "re_sub [] = []"
| "re_sub (c # cs) =
     (case match_json_pattern (c # cs) of
        Some (m, r) \<Rightarrow> re_sub r
      | None \<Rightarrow> c # re_sub cs)"
  by pat_completeness auto
termination
  by (relation "measure length") (auto dest: match_json_pattern_length)

section \<open>Messages, requests and the environment\<close>

text \<open>
  A message of the conversation: the dictionaries \<^verbatim>\<open>{"role": ..., "content": ...}\<close> the
  module builds, and the \<^verbatim>\<open>ChatCompletionMessage\<close> objects of the client library, whose
  \<^verbatim>\<open>model_dump(exclude_none=True)\<close> is the dictionary of the fields that are set.
\<close>

record function_call =
  fc_name :: string
  fc_arguments :: string

record message =
  msg_role :: string
  msg_content :: "string option"
  msg_name :: "string option"
  msg_function_call :: "function_call option"

record choice =
  finish_reason :: string
  choice_message :: message

text \<open>A configured function: its \<^verbatim>\<open>spec\<close> for the model and its \<^verbatim>\<open>function\<close> for an executor.\<close>

record function_spec =
  spec_name :: string
  spec_body :: json

record function_conf =
  fn_type :: string
  fn_body :: json

record setting =
  setting_spec :: function_spec
  setting_function :: function_conf

text \<open>
  The arguments of \<^verbatim>\<open>client.chat.completions.create\<close> that the module computes. The
  options passed on unchanged (model, max_tokens, top_p, temperature) are left out.
\<close>

record request =
  req_messages :: "message list"
  req_functions :: "function_spec list option"
  req_function_call :: "string option"

record user_input =
  ui_text :: string
  ui_conversation_id :: "string option"
  ui_user_id :: "string option"
  ui_language :: string

type_synonym exposed_entities = "dict list"

text \<open>
  What the module does to the world outside it, in order: a request to the LLM endpoint,
  the execution of a configured function by its executor, a call of a host service.
\<close>

datatype event =
    ChatRequest request
  | FunctionExecuted string function_conf json
  | ServiceCalled string string dict

text \<open>
  The environment of the agent: the options of the config entry, the host, the LLM
  client, the helpers of \<^verbatim>\<open>helpers.py\<close> (not among the sources) and the libraries. An
  answer of the outside world may depend on every event before it, so the oracles that
  stand for the world take the events so far.
\<close>

record env =
  opt_max_function_calls :: int
  opt_ignore_convoid :: bool
  opt_attach_username :: bool
  opt_attach_username_to_prompt :: bool
  load_functions :: "error + setting list"
  get_function_executor :: "string \<Rightarrow> error + string"
  to_arguments :: "string \<Rightarrow> function_conf \<Rightarrow> error + function_conf"
  executor_execute ::
    "event list \<Rightarrow> string \<Rightarrow> function_conf \<Rightarrow> json \<Rightarrow> user_input \<Rightarrow> exposed_entities \<Rightarrow> error + json"
  py_str :: "json \<Rightarrow> string"
  chat_completions_create :: "event list \<Rightarrow> request \<Rightarrow> error + choice list"
  services_async_call :: "event list \<Rightarrow> string \<Rightarrow> string \<Rightarrow> dict \<Rightarrow> error option"
  json_loads :: "string \<Rightarrow> json option"
  yaml_dump :: "json \<Rightarrow> string"
  auth_user_name :: "string option \<Rightarrow> string option"
  render_prompt :: "exposed_entities \<Rightarrow> error + string"
  get_exposed_entities :: "exposed_entities"
  ulid :: "event list \<Rightarrow> string"

text \<open>
  The mutable state a turn threads through \<^verbatim>\<open>query\<close>: the events so far and the list
  \<^verbatim>\<open>messages\<close>, which \<^verbatim>\<open>execute_function\<close> appends to in place. An exception does not undo
  either, so every operation returns the state beside its result or error.
\<close>

record state =
  st_trace :: "event list"
  st_messages :: "message list"

section \<open>The agent\<close>

subsection \<open>\<^verbatim>\<open>get_functions\<close>\<close>

fun convert_settings :: "env \<Rightarrow> setting list \<Rightarrow> error + setting list" where
  "convert_settings env [] = Inr []"
| "convert_settings env (s # ss) =
     (case get_function_executor env (fn_type (setting_function s)) of
        Inl e \<Rightarrow> Inl e
      | Inr function_executor \<Rightarrow>
          (case to_arguments env function_executor (setting_function s) of
             Inl e \<Rightarrow> Inl e
           | Inr f \<Rightarrow>
               (case convert_settings env ss of
                  Inl e \<Rightarrow> Inl e
                | Inr ss' \<Rightarrow> Inr (s\<lparr>setting_function := f\<rparr> # ss'))))"

definition get_functions :: "env \<Rightarrow> error + setting list" where
  "get_functions env =
     (case (case load_functions env of
              Inl e \<Rightarrow> Inl e
            | Inr result \<Rightarrow> convert_settings env result) of
        Inr result \<Rightarrow> Inr result
      | Inl (InvalidFunction x) \<Rightarrow> Inl (InvalidFunction x)
      | Inl (FunctionNotFound x) \<Rightarrow> Inl (FunctionNotFound x)
      | Inl _ \<Rightarrow> Inl FunctionLoadFailed)"

subsection \<open>\<^verbatim>\<open>extract_json_objects\<close> and \<^verbatim>\<open>remove_json_objects\<close>\<close>

fun valid_jsons :: "env \<Rightarrow> string list \<Rightarrow> string list" where
  "valid_jsons env [] = []"
| "valid_jsons env (potential_json # rest) =
     (case json_loads env potential_json of
        Some valid_json \<Rightarrow> potential_json # valid_jsons env rest
      | None \<Rightarrow> valid_jsons env rest)"

definition extract_json_objects :: "env \<Rightarrow> string \<Rightarrow> string list" where
  "extract_json_objects env text = valid_jsons env (re_findall text)"

definition remove_json_objects :: "string \<Rightarrow> string" where
  "remove_json_objects text = re_sub text"

subsection \<open>The service directives of a message\<close>

text \<open>
  The body of the \<^verbatim>\<open>try\<close> in the loop over the segments. It gives \<open>Inl\<close> the exception
  raised, \<open>Inr None\<close> after \<^verbatim>\<open>continue\<close>, and \<open>Inr (Some d)\<close> with the entry appended to
  \<^verbatim>\<open>services_called\<close> after the host call. A value that is not a dictionary has no
  \<^verbatim>\<open>pop\<close> taking a key, a value of \<^verbatim>\<open>"service"\<close> that is not a string has no \<^verbatim>\<open>split\<close>:
  both raise.
\<close>

definition call_service :: "env \<Rightarrow> event list \<Rightarrow> string \<Rightarrow> event list \<times> (error + string option)" where
  "call_service env tr segment =
     (case json_loads env segment of
        None \<Rightarrow> (tr, Inl (OtherException ''JSONDecodeError''))
      | Some (JObject loaded) \<Rightarrow>
          (case map_of loaded ''service'' of
             None \<Rightarrow> (tr, Inl (KeyError ''service''))
           | Some (JString service0) \<Rightarrow>
               (let popped = filter (\<lambda>kv. fst kv \<noteq> ''service'') loaded in
                case str_split service0 (CHR ''.'') of
                  [] \<Rightarrow> (tr, Inl IndexError)
                | service_domain # _ \<Rightarrow>
                    (let service_call =
                           (if service_domain = ''script''
                            then [(''entity_id'', JString service0), (''variables'', JObject popped)]
                            else popped);
                         service = (if service_domain = ''script'' then ''script.turn_on'' else service0)
                     in if service = [] \<or> service_call = [] then (tr, Inr None)
                        else
                          (case str_split service (CHR ''.'') of
                             domain # name # _ \<Rightarrow>
                               (case services_async_call env tr domain name service_call of
                                  Some e \<Rightarrow> (tr @ [ServiceCalled domain name service_call], Inl e)
                                | None \<Rightarrow>
                                    (tr @ [ServiceCalled domain name service_call],
                                     Inr (Some (yaml_dump env
                                       (JObject (service_call @ [(''service'', JString service)]))))))
                           | _ \<Rightarrow> (tr, Inl IndexError))))
           | Some _ \<Rightarrow> (tr, Inl AttributeError))
      | Some _ \<Rightarrow> (tr, Inl AttributeError))"

text \<open>
  The names bound at the level of the module: what it imports and what it defines. A
  name a function neither binds nor finds here (nor among the built-ins) raises
  \<^verbatim>\<open>NameError\<close> when it is evaluated.
\<close>

definition module_globals :: "string list" where
  "module_globals =
     [''annotations'', ''logging'', ''Literal'', ''json'', ''yaml'', ''re'',
      ''AsyncOpenAI'', ''AsyncAzureOpenAI'', ''Choice'', ''ChatCompletion'',
      ''ChatCompletionMessage'', ''OpenAIError'', ''AuthenticationError'', ''conversation'',
      ''ConfigEntry'', ''CONF_API_KEY'', ''MATCH_ALL'', ''ATTR_NAME'', ''HomeAssistant'',
      ''ServiceCall'', ''SupportsResponse'', ''ulid'', ''async_should_expose'',
      ''ConfigEntryNotReady'', ''HomeAssistantError'', ''TemplateError'', ''ServiceNotFound'',
      ''User'', ''POLICY_READ'', ''POLICY_CONTROL'', ''POLICY_EDIT'', ''cv'', ''intent'',
      ''template'', ''er'', ''CONF_ATTACH_USERNAME'', ''CONF_ATTACH_USERNAME_TO_PROMPT'',
      ''CONF_CHAT_MODEL'', ''CONF_MAX_TOKENS'', ''CONF_PROMPT'', ''CONF_TEMPERATURE'',
      ''CONF_TOP_P'', ''CONF_MAX_FUNCTION_CALLS_PER_CONVERSATION'', ''CONF_FUNCTIONS'',
      ''CONF_BASE_URL'', ''CONF_API_VERSION'', ''CONF_SKIP_AUTHENTICATION'',
      ''CONF_IGNORE_CONVOID'', ''DEFAULT_IGNORE_CONVOID'', ''DEFAULT_ATTACH_USERNAME'',
      ''DEFAULT_ATTACH_USERNAME_TO_PROMPT'', ''DEFAULT_CHAT_MODEL'', ''DEFAULT_MAX_TOKENS'',
      ''DEFAULT_PROMPT'', ''DEFAULT_TEMPERATURE'', ''DEFAULT_TOP_P'',
      ''DEFAULT_MAX_FUNCTION_CALLS_PER_CONVERSATION'', ''DEFAULT_CONF_FUNCTIONS'',
      ''DEFAULT_SKIP_AUTHENTICATION'', ''DOMAIN'', ''EntityNotFound'', ''EntityNotExposed'',
      ''CallServiceError'', ''FunctionNotFound'', ''NativeNotFound'', ''FunctionLoadFailed'',
      ''ParseArgumentsFailed'', ''InvalidFunction'', ''FUNCTION_EXECUTORS'',
      ''FunctionExecutor'', ''NativeFunctionExecutor'', ''ScriptFunctionExecutor'',
      ''TemplateFunctionExecutor'', ''RestFunctionExecutor'', ''ScrapeFunctionExecutor'',
      ''CompositeFunctionExecutor'', ''convert_to_template'', ''validate_authentication'',
      ''get_function_executor'', ''is_azure'', ''_LOGGER'', ''CONFIG_SCHEMA'',
      ''AZURE_DOMAIN_PATTERN'', ''DATA_AGENT'', ''async_setup_entry'', ''async_unload_entry'',
      ''OpenAIAgent'']"

definition global_name :: "string \<Rightarrow> error + unit" where
  "global_name n = (if n \<in> set module_globals then Inr () else Inl (NameError n))"

text \<open>
  The loop \<^verbatim>\<open>for segment in self.extract_json_objects(message.content)\<close> with its two
  variables. The handler \<^verbatim>\<open>except Exception as ex\<close> sets \<^verbatim>\<open>service_execution_failed\<close> and
  then evaluates \<^verbatim>\<open>_lOGGER.warning(...)\<close>, name first.
\<close>

fun for_segments ::
  "env \<Rightarrow> event list \<Rightarrow> string list \<Rightarrow> string list \<Rightarrow> bool \<Rightarrow> event list \<times> (error + string list \<times> bool)" where
  "for_segments env tr [] services_called service_execution_failed =
     (tr, Inr (services_called, service_execution_failed))"
| "for_segments env tr (segment # rest) services_called service_execution_failed =
     (case call_service env tr segment of
        (tr', Inr None) \<Rightarrow> for_segments env tr' rest services_called service_execution_failed
      | (tr', Inr (Some dumped)) \<Rightarrow>
          for_segments env tr' rest (services_called @ [dumped]) service_execution_failed
      | (tr', Inl ex) \<Rightarrow>
          (case global_name ''_lOGGER'' of
             Inl e \<Rightarrow> (tr', Inl e)
           | Inr _ \<Rightarrow> for_segments env tr' rest services_called True))"

subsection \<open>The end of \<^verbatim>\<open>query\<close>: what is done to the message\<close>

definition clean_content :: "string \<Rightarrow> string" where
  "clean_content c =
     str_strip
       (str_replace
          (str_replace (remove_json_objects c) ''$ActionRequired'' [])
          ''$NoActionRequired'' [])"

definition process_message ::
  "env \<Rightarrow> state \<Rightarrow> message \<Rightarrow> state \<times> (error + string list \<times> message)" where
  "process_message env st message =
     (case msg_content message of
        None \<Rightarrow> (st, Inl AttributeError)
      | Some c0 \<Rightarrow>
          (let c1 = str_replace c0 [CHR 0x5C] [] in
           if str_contains ''$ActionRequired'' c1 then
             (case for_segments env (st_trace st) (extract_json_objects env c1) [] False of
                (tr, Inl e) \<Rightarrow> (st\<lparr>st_trace := tr\<rparr>, Inl e)
              | (tr, Inr (services_called, service_execution_failed)) \<Rightarrow>
                  (let c2 =
                         (if service_execution_failed
                          then c1 @ [CHR ''\<newline>'', CHR ''\<newline>''] @
                               '' An error occurred while executing requested service.''
                          else c1)
                   in (st\<lparr>st_trace := tr\<rparr>,
                       Inr (services_called, message\<lparr>msg_content := Some (clean_content c2)\<rparr>))))
           else (st, Inr ([], message\<lparr>msg_content := Some (clean_content c1)\<rparr>))))"

subsection \<open>\<^verbatim>\<open>query\<close>, \<^verbatim>\<open>execute_function_call\<close> and \<^verbatim>\<open>execute_function\<close>\<close>

text \<open>
  The three methods call each other with no bound of their own, so the model counts the
  calls of \<^verbatim>\<open>query\<close> a turn may still make: with none left the result is \<open>None\<close>, which
  stands for a turn that has not returned. The methods are written in the order of their
  calls, each taking as \<open>self_query\<close> the method \<^verbatim>\<open>self.query\<close> it calls (with the
  calls that are left), and \<open>query\<close> closes the recursion.
\<close>

type_synonym query_result = "(state \<times> (error + string list \<times> message)) option"

definition execute_function ::
  "(state \<Rightarrow> nat \<Rightarrow> query_result) \<Rightarrow> env \<Rightarrow> user_input \<Rightarrow> exposed_entities \<Rightarrow> state \<Rightarrow> message \<Rightarrow> nat \<Rightarrow>
   setting \<Rightarrow> (state \<times> (error + message)) option" where
  "execute_function self_query env ui ee st message n_requests function =
     (case get_function_executor env (fn_type (setting_function function)) of
        Inl e \<Rightarrow> Some (st, Inl e)
      | Inr function_executor \<Rightarrow>
          (case msg_function_call message of
             None \<Rightarrow> Some (st, Inl AttributeError)
           | Some fc \<Rightarrow>
               (case json_loads env (fc_arguments fc) of
                  None \<Rightarrow> Some (st, Inl (ParseArgumentsFailed (fc_arguments fc)))
                | Some arguments \<Rightarrow>
                    (let st1 = st\<lparr>st_trace := st_trace st @
                           [FunctionExecuted function_executor (setting_function function) arguments]\<rparr>
                     in case executor_execute env (st_trace st) function_executor
                               (setting_function function) arguments ui ee of
                          Inl e \<Rightarrow> Some (st1, Inl e)
                        | Inr result \<Rightarrow>
                            (let st2 = st1\<lparr>st_messages := st_messages st1 @
                                   [\<lparr>msg_role = ''function'', msg_content = Some (py_str env result),
                                     msg_name = Some (fc_name fc), msg_function_call = None\<rparr>]\<rparr>
                             in case self_query st2 n_requests of
                                  None \<Rightarrow> None
                                | Some (st3, Inl e) \<Rightarrow> Some (st3, Inl e)
                                | Some (st3, Inr (services_called, result)) \<Rightarrow>
                                    Some (st3, Inr result))))))"

definition execute_function_call ::
  "(state \<Rightarrow> nat \<Rightarrow> query_result) \<Rightarrow> env \<Rightarrow> user_input \<Rightarrow> exposed_entities \<Rightarrow> state \<Rightarrow> message \<Rightarrow> nat \<Rightarrow>
   (state \<times> (error + message)) option" where
  "execute_function_call self_query env ui ee st message n_requests =
     (case msg_function_call message of
        None \<Rightarrow> Some (st, Inl AttributeError)
      | Some fc \<Rightarrow>
          (case get_functions env of
             Inl e \<Rightarrow> Some (st, Inl e)
           | Inr settings \<Rightarrow>
               (case find (\<lambda>s. spec_name (setting_spec s) = fc_name fc) settings of
                  Some function \<Rightarrow>
                    execute_function self_query env ui ee st message n_requests function
                | None \<Rightarrow> Some (st, Inl (FunctionNotFound (fc_name fc))))))"

definition build_request :: "env \<Rightarrow> setting list \<Rightarrow> message list \<Rightarrow> nat \<Rightarrow> request" where
  "build_request env settings messages n_requests =
     (let functions = map setting_spec settings;
          function_call =
            (if int n_requests = opt_max_function_calls env then ''none'' else ''auto'')
      in if length functions = 0
         then \<lparr>req_messages = messages, req_functions = None, req_function_call = None\<rparr>
         else \<lparr>req_messages = messages, req_functions = Some functions,
               req_function_call = Some function_call\<rparr>)"

definition query_body ::
  "(state \<Rightarrow> nat \<Rightarrow> query_result) \<Rightarrow> env \<Rightarrow> user_input \<Rightarrow> exposed_entities \<Rightarrow> state \<Rightarrow> nat \<Rightarrow>
   query_result" where
  "query_body self_query env ui ee st n_requests =
     (case get_functions env of
        Inl e \<Rightarrow> Some (st, Inl e)
      | Inr settings \<Rightarrow>
          (let req = build_request env settings (st_messages st) n_requests;
               st1 = st\<lparr>st_trace := st_trace st @ [ChatRequest req]\<rparr>
           in case chat_completions_create env (st_trace st) req of
                Inl e \<Rightarrow> Some (st1, Inl e)
              | Inr choices \<Rightarrow>
                  (case py_index choices 0 of
                     Inl e \<Rightarrow> Some (st1, Inl e)
                   | Inr choice \<Rightarrow>
                       (if finish_reason choice = ''function_call'' then
                          (case execute_function_call self_query env ui ee st1
                                  (choice_message choice) (n_requests + 1) of
                             None \<Rightarrow> None
                           | Some (st2, Inl e) \<Rightarrow> Some (st2, Inl e)
                           | Some (st2, Inr message) \<Rightarrow> Some (process_message env st2 message))
                        else Some (process_message env st1 (choice_message choice))))))"

primrec query :: "nat \<Rightarrow> env \<Rightarrow> user_input \<Rightarrow> exposed_entities \<Rightarrow> state \<Rightarrow> nat \<Rightarrow> query_result" where
  "query 0 env ui ee st n_requests = None"
| "query (Suc k) env ui ee st n_requests =
     query_body (query k env ui ee) env ui ee st n_requests"

subsection \<open>\<^verbatim>\<open>async_process\<close>\<close>

text \<open>
  The response of a turn is a speech (\<^verbatim>\<open>async_set_speech\<close>) or an error of code
  \<^verbatim>\<open>UNKNOWN\<close> (\<^verbatim>\<open>async_set_error\<close>) made of a fixed text and the exception caught.
\<close>

datatype intent_response =
    Speech "string option"
  | ErrorResponse string error

record conversation_result =
  cr_response :: intent_response
  cr_conversation_id :: "string option"

type_synonym history = "string \<rightharpoonup> message list"

type_synonym turn_result = "((history \<times> event list) \<times> (error + conversation_result)) option"

definition system_prompt :: "env \<Rightarrow> exposed_entities \<Rightarrow> user_input \<Rightarrow> error + string" where
  "system_prompt env ee ui =
     (case render_prompt env ee of
        Inl e \<Rightarrow> Inl e
      | Inr prompt \<Rightarrow>
          (if opt_attach_username_to_prompt env then
             (case auth_user_name env (ui_user_id ui) of
                Some name \<Rightarrow> Inr (''User'' @ [CHR 0x27] @ ''s name: '' @ name @ [CHR ''\<newline>''] @ prompt)
              | None \<Rightarrow> Inr prompt)
           else Inr prompt))"

definition user_message :: "env \<Rightarrow> user_input \<Rightarrow> message" where
  "user_message env ui =
     \<lparr>msg_role = ''user'', msg_content = Some (ui_text ui),
      msg_name = (if opt_attach_username env then auth_user_name env (ui_user_id ui) else None),
      msg_function_call = None\<rparr>"

definition service_executed_suffix :: string where
  "service_executed_suffix = [CHR '' '', CHR ''\<newline>'', CHR ''\<newline>''] @ ''Service executed successfully.''"

text \<open>
  The turn from \<^verbatim>\<open>messages.append(user_message)\<close> on. \<open>aliased\<close> says that \<^verbatim>\<open>messages\<close> is the
  very list stored in \<^verbatim>\<open>self.history\<close> under the conversation id: then whatever is
  appended to it is appended to the stored history, also when the turn ends in an error.
\<close>

definition run_turn ::
  "nat \<Rightarrow> env \<Rightarrow> history \<Rightarrow> event list \<Rightarrow> user_input \<Rightarrow> exposed_entities \<Rightarrow> string option \<Rightarrow> bool \<Rightarrow>
   message list \<Rightarrow> turn_result" where
  "run_turn fuel env hist tr ui ee conversation_id aliased messages0 =
     (let shared = (\<lambda>ms. case conversation_id of
                            None \<Rightarrow> hist
                          | Some cid \<Rightarrow> if aliased then hist(cid \<mapsto> ms) else hist)
      in case query fuel env ui ee
                \<lparr>st_trace = tr, st_messages = messages0 @ [user_message env ui]\<rparr> 0 of
           None \<Rightarrow> None
         | Some (st, Inl err) \<Rightarrow>
             Some ((shared (st_messages st), st_trace st),
                   if is_OpenAIError err then
                     Inr \<lparr>cr_response = ErrorResponse ''Sorry, I had a problem talking to OpenAI: '' err,
                          cr_conversation_id = conversation_id\<rparr>
                   else if is_HomeAssistantError err then
                     Inr \<lparr>cr_response = ErrorResponse ''Something went wrong: '' err,
                          cr_conversation_id = conversation_id\<rparr>
                   else Inl err)
         | Some (st, Inr (services_called, response)) \<Rightarrow>
             (let messages = st_messages st @ [response];
                  hist' = (case conversation_id of
                             None \<Rightarrow> hist
                           | Some cid \<Rightarrow> hist(cid \<mapsto> messages))
              in Some ((hist', st_trace st),
                       if length services_called > 0 then
                         (case msg_content response of
                            None \<Rightarrow> Inl (OtherException ''TypeError'')
                          | Some c \<Rightarrow>
                              Inr \<lparr>cr_response = Speech (Some (c @ service_executed_suffix)),
                                   cr_conversation_id = conversation_id\<rparr>)
                       else Inr \<lparr>cr_response = Speech (msg_content response),
                                 cr_conversation_id = conversation_id\<rparr>)))"

definition async_process :: "nat \<Rightarrow> env \<Rightarrow> history \<Rightarrow> event list \<Rightarrow> user_input \<Rightarrow> turn_result" where
  "async_process fuel env hist tr ui =
     (let exposed_entities = get_exposed_entities env in
      case (case ui_conversation_id ui of
              None \<Rightarrow> None
            | Some cid \<Rightarrow> map_option (Pair cid) (hist cid)) of
        Some (cid, stored) \<Rightarrow>
          (if opt_ignore_convoid env
           then run_turn fuel env hist tr ui exposed_entities None False []
           else run_turn fuel env hist tr ui exposed_entities (Some cid) True stored)
      | None \<Rightarrow>
          (let conversation_id = (if opt_ignore_convoid env then None else Some (ulid env tr)) in
           case system_prompt env exposed_entities ui of
             Inl (TemplateError err) \<Rightarrow>
               Some ((hist, tr),
                     Inr \<lparr>cr_response =
                            ErrorResponse ''Sorry, I had a problem with my template: '' (TemplateError err),
                          cr_conversation_id = conversation_id\<rparr>)
           | Inl e \<Rightarrow> Some ((hist, tr), Inl e)
           | Inr prompt \<Rightarrow>
               run_turn fuel env hist tr ui exposed_entities conversation_id False
                 [\<lparr>msg_role = ''system'', msg_content = Some prompt, msg_name = None,
                   msg_function_call = None\<rparr>]))"

subsection \<open>\<^verbatim>\<open>async_setup_entry\<close>\<close>

text \<open>
  The host as far as the setup touches it: \<^verbatim>\<open>hass.data[DOMAIN]\<close>, keyed by the id of the
  entry, and the agent that \<^verbatim>\<open>conversation.async_set_agent\<close> registers for an entry.
  \<^verbatim>\<open>validate_authentication\<close> is a helper of \<^verbatim>\<open>helpers.py\<close> that talks to the LLM endpoint;
  it is a parameter, giving the exception it raises, if any. The agent is made with an
  empty history; the constructor of its client is taken to return.
\<close>

record config_entry =
  entry_id :: string
  entry_api_key :: "string option"

record agent =
  agent_entry :: config_entry
  agent_history :: history

record entry_data =
  data_api_key :: string
  data_agent :: agent

record hass =
  hass_data :: "string \<rightharpoonup> entry_data"
  hass_agents :: "string \<rightharpoonup> agent"

definition async_setup_entry ::
  "(config_entry \<Rightarrow> string \<Rightarrow> error option) \<Rightarrow> hass \<Rightarrow> config_entry \<Rightarrow> hass \<times> (error + bool)" where
  "async_setup_entry validate_authentication h entry =
     (case entry_api_key entry of
        None \<Rightarrow> (h, Inl (KeyError ''api_key''))
      | Some api_key \<Rightarrow>
          (case validate_authentication entry api_key of
             Some (AuthenticationError err) \<Rightarrow> (h, Inr False)
           | Some (OpenAIError err) \<Rightarrow> (h, Inl (ConfigEntryNotReady err))
           | Some err \<Rightarrow> (h, Inl err)
           | None \<Rightarrow>
               (let a = \<lparr>agent_entry = entry, agent_history = Map.empty\<rparr>
                in (h\<lparr>hass_data := (hass_data h)(entry_id entry \<mapsto>
                         \<lparr>data_api_key = api_key, data_agent = a\<rparr>),
                       hass_agents := (hass_agents h)(entry_id entry \<mapsto> a)\<rparr>,
                    Inr True))))"

section \<open>Notions the properties are stated with\<close>

text \<open>
  \<open>closes cs\<close>: reading \<open>cs\<close> from its head, a closing brace comes before any newline.
  \<open>has_match t\<close>: somewhere in \<open>t\<close> an opening brace is closed on its own line, which is
  what the pattern \<^verbatim>\<open>\{.*?\}\<close> finds.
\<close>

fun closes :: "string \<Rightarrow> bool" where
  "closes [] = False"
| "closes (c # cs) = (c = CHR ''}'' \<or> (c \<noteq> CHR ''\<newline>'' \<and> closes cs))"

fun has_match :: "string \<Rightarrow> bool" where
  "has_match [] = False"
| "has_match (c # cs) = ((c = CHR ''{'' \<and> closes cs) \<or> has_match cs)"

text \<open>
  The reading of a text as brace-delimited pieces, in words: \<open>segmentation t ms r\<close> says
  that \<open>t\<close> is cut, from the left, into the pieces \<open>ms\<close> and the remaining characters \<open>r\<close>,
  where a piece runs from an opening brace to the first closing brace after it with no
  newline in between, and a character stays unless it is an opening brace that is closed
  on its line.
\<close>

inductive segmentation :: "string \<Rightarrow> string list \<Rightarrow> string \<Rightarrow> bool" where
  seg_end: "segmentation [] [] []"
| seg_keep: "c \<noteq> CHR ''{'' \<or> \<not> closes cs \<Longrightarrow> segmentation cs ms r \<Longrightarrow>
            segmentation (c # cs) ms (c # r)"
| seg_piece: "CHR ''}'' \<notin> set b \<Longrightarrow> CHR ''\<newline>'' \<notin> set b \<Longrightarrow> segmentation cs ms r \<Longrightarrow>
            segmentation (CHR ''{'' # b @ CHR ''}'' # cs) ((CHR ''{'' # b @ [CHR ''}'']) # ms) r"

text \<open>
  The host call a directive stands for, in the words of the specification: a JSON object
  with a string under \<^verbatim>\<open>"service"\<close>; for the domain \<^verbatim>\<open>script\<close> the call is
  \<^verbatim>\<open>script.turn_on\<close> on the script as entity with the other keys as \<^verbatim>\<open>variables\<close>, for
  another domain it is the service itself, split at the dots into domain and name, with
  the other keys as data. \<open>None\<close> where the directive has no such call: no further key
  outside the script domain, or no name after the domain.
\<close>

definition expected_call :: "env \<Rightarrow> string \<Rightarrow> event option" where
  "expected_call env segment =
     (case json_loads env segment of
        Some (JObject d) \<Rightarrow>
          (case map_of d ''service'' of
             Some (JString service) \<Rightarrow>
               (let others = filter (\<lambda>kv. fst kv \<noteq> ''service'') d in
                case str_split service (CHR ''.'') of
                  [] \<Rightarrow> None
                | [domain] \<Rightarrow>
                    (if domain = ''script''
                     then Some (ServiceCalled ''script'' ''turn_on''
                            [(''entity_id'', JString service), (''variables'', JObject others)])
                     else None)
                | domain # name # _ \<Rightarrow>
                    (if domain = ''script''
                     then Some (ServiceCalled ''script'' ''turn_on''
                            [(''entity_id'', JString service), (''variables'', JObject others)])
                     else if others = [] then None
                     else Some (ServiceCalled domain name others)))
           | _ \<Rightarrow> None)
      | _ \<Rightarrow> None)"

text \<open>The executions of configured functions among the events.\<close>

fun is_FunctionExecuted :: "event \<Rightarrow> bool" where
  "is_FunctionExecuted (FunctionExecuted _ _ _) = True"
| "is_FunctionExecuted _ = False"

definition executions :: "event list \<Rightarrow> nat" where
  "executions tr = length (filter is_FunctionExecuted tr)"

fun is_ServiceCalled :: "event \<Rightarrow> bool" where
  "is_ServiceCalled (ServiceCalled _ _ _) = True"
| "is_ServiceCalled _ = False"

text \<open>
  An endpoint that keeps the contract of the parameter \<^verbatim>\<open>function_call="none"\<close>: asked with
  it, the model does not answer with a function call.
\<close>

definition honours_none :: "env \<Rightarrow> bool" where
  "honours_none env =
     (\<forall>tr req choice rest.
        req_function_call req = Some ''none'' \<longrightarrow>
        chat_completions_create env tr req = Inr (choice # rest) \<longrightarrow>
        finish_reason choice \<noteq> ''function_call'')"

section \<open>Concrete environments\<close>

text \<open>
  The values of \<^verbatim>\<open>json.loads\<close> on the texts the examples below use; every other text the
  examples hand to it is not valid JSON.
\<close>

definition directive_light :: string where
  "directive_light = ''{\"service\": \"light.turn_on\", \"entity_id\": \"light.kitchen\"}''"

definition directive_script :: string where
  "directive_script = ''{\"service\": \"script.bedtime\", \"delay\": 5}''"

definition directive_restart :: string where
  "directive_restart = ''{\"service\": \"homeassistant.restart\"}''"

definition directive_no_service :: string where
  "directive_no_service = ''{\"entity_id\": \"light.kitchen\"}''"

definition directive_two_lines :: string where
  "directive_two_lines =
     ''{\"service\": \"light.turn_on\",'' @ [CHR ''\<newline>''] @ '' \"entity_id\": \"light.kitchen\"}''"

definition json_loads_ex :: "string \<Rightarrow> json option" where
  "json_loads_ex s =
     (if s = directive_light \<or> s = directive_two_lines then
        Some (JObject [(''service'', JString ''light.turn_on''),
                       (''entity_id'', JString ''light.kitchen'')])
      else if s = directive_script then
        Some (JObject [(''service'', JString ''script.bedtime''), (''delay'', JNumber ''5'')])
      else if s = directive_restart then
        Some (JObject [(''service'', JString ''homeassistant.restart'')])
      else if s = directive_no_service then
        Some (JObject [(''entity_id'', JString ''light.kitchen'')])
      else if s = ''{}'' \<or> s = [CHR ''{'', CHR ''\<newline>'', CHR ''}''] then Some (JObject [])
      else None)"


definition example_setting :: setting where
  "example_setting =
     \<lparr>setting_spec = \<lparr>spec_name = ''get_state'', spec_body = JNull\<rparr>,
      setting_function = \<lparr>fn_type = ''native'', fn_body = JNull\<rparr>\<rparr>"

text \<open>
  An environment with one configured function, a host whose services all succeed and an
  executor that answers \<^verbatim>\<open>"on"\<close>; the limit of function calls, the option to ignore the
  conversation id and the LLM endpoint are left open.
\<close>

definition example_env :: "int \<Rightarrow> bool \<Rightarrow> (event list \<Rightarrow> request \<Rightarrow> error + choice list) \<Rightarrow> env" where
  "example_env max_calls ignore llm =
     \<lparr>opt_max_function_calls = max_calls,
      opt_ignore_convoid = ignore,
      opt_attach_username = False,
      opt_attach_username_to_prompt = False,
      load_functions = Inr [example_setting],
      get_function_executor = (\<lambda>t. Inr t),
      to_arguments = (\<lambda>function_executor f. Inr f),
      executor_execute = (\<lambda>tr function_executor f arguments ui ee. Inr (JString ''on'')),
      py_str = (\<lambda>j. case j of JString s \<Rightarrow> s | _ \<Rightarrow> []),
      chat_completions_create = llm,
      services_async_call = (\<lambda>tr domain name data. None),
      json_loads = json_loads_ex,
      yaml_dump = (\<lambda>j. ''service''),
      auth_user_name = (\<lambda>u. None),
      render_prompt = (\<lambda>ee. Inr ''You are a smart home.''),
      get_exposed_entities = [],
      ulid = (\<lambda>tr. ''01HF0000000000000000000000'')\<rparr>"

definition assistant :: "string \<Rightarrow> message" where
  "assistant c =
     \<lparr>msg_role = ''assistant'', msg_content = Some c, msg_name = None, msg_function_call = None\<rparr>"

definition calling :: "string \<Rightarrow> string \<Rightarrow> message" where
  "calling f arguments =
     \<lparr>msg_role = ''assistant'', msg_content = None, msg_name = None,
      msg_function_call = Some \<lparr>fc_name = f, fc_arguments = arguments\<rparr>\<rparr>"

text \<open>An endpoint that answers every request with the same text.\<close>

definition llm_says :: "string \<Rightarrow> event list \<Rightarrow> request \<Rightarrow> error + choice list" where
  "llm_says c tr req = Inr [\<lparr>finish_reason = ''stop'', choice_message = assistant c\<rparr>]"

text \<open>
  An endpoint that asks for a function until the messages hold the result of one, then
  answers with a text; it does so whatever \<^verbatim>\<open>function_call\<close> the request carries.
\<close>

definition llm_calls_once ::
  "string \<Rightarrow> string \<Rightarrow> string \<Rightarrow> event list \<Rightarrow> request \<Rightarrow> error + choice list" where
  "llm_calls_once f arguments c tr req =
     (if \<exists>m \<in> set (req_messages req). msg_role m = ''function''
      then Inr [\<lparr>finish_reason = ''stop'', choice_message = assistant c\<rparr>]
      else Inr [\<lparr>finish_reason = ''function_call'', choice_message = calling f arguments\<rparr>])"

text \<open>
  An endpoint that asks for a function whenever the request allows one (\<^verbatim>\<open>"auto"\<close>) and
  answers with a text otherwise.
\<close>

definition llm_calls_when_allowed ::
  "string \<Rightarrow> string \<Rightarrow> string \<Rightarrow> event list \<Rightarrow> request \<Rightarrow> error + choice list" where
  "llm_calls_when_allowed f arguments c tr req =
     (if req_function_call req = Some ''auto''
      then Inr [\<lparr>finish_reason = ''function_call'', choice_message = calling f arguments\<rparr>]
      else Inr [\<lparr>finish_reason = ''stop'', choice_message = assistant c\<rparr>])"

definition example_input :: "string option \<Rightarrow> user_input" where
  "example_input cid =
     \<lparr>ui_text = ''turn on the kitchen light'', ui_conversation_id = cid, ui_user_id = None,
      ui_language = ''en''\<rparr>"

text \<open>A history with one stored conversation, as a first turn leaves it.\<close>

definition stored_conversation :: history where
  "stored_conversation =
     [''01HF0000000000000000000000'' \<mapsto>
        [\<lparr>msg_role = ''system'', msg_content = Some ''You are a smart home.'', msg_name = None,
          msg_function_call = None\<rparr>,
         \<lparr>msg_role = ''user'', msg_content = Some ''hello'', msg_name = None,
          msg_function_call = None\<rparr>,
         assistant ''Hello.'']]"

text \<open>A validation that accepts one key, rejects another as revoked and fails to connect otherwise.\<close>

definition validate_example :: "config_entry \<Rightarrow> string \<Rightarrow> error option" where
  "validate_example entry api_key =
     (if api_key = ''sk-valid'' then None
      else if api_key = ''sk-revoked'' then Some (AuthenticationError ''401'')
      else Some (OpenAIError ''connection error''))"

section \<open>Properties of the text operations\<close>

lemma match_lazy_None: "(match_lazy cs = None) = (\<not> closes cs)"
  by (induction cs) (auto split: option.splits)

lemma match_lazy_Some:
  "match_lazy cs = Some (m, r) \<Longrightarrow>
   \<exists>b. m = b @ [CHR ''}''] \<and> cs = m @ r \<and> CHR ''}'' \<notin> set b \<and> CHR ''\<newline>'' \<notin> set b"
proof (induction cs arbitrary: m)
  case Nil
  then show ?case by simp
next
  case (Cons c cs)
  show ?case
  proof (cases "c = CHR ''}''")
    case True
    with Cons.prems show ?thesis by auto
  next
    case False
    with Cons.prems obtain m' where m': "match_lazy cs = Some (m', r)" "m = c # m'" "c \<noteq> CHR ''\<newline>''"
      by (auto split: if_splits option.splits)
    from Cons.IH[OF m'(1)] obtain b where "m' = b @ [CHR ''}'']" "cs = m' @ r" "CHR ''}'' \<notin> set b" "CHR ''\<newline>'' \<notin> set b"
      by blast
    with m' False show ?thesis
      by (intro exI[of _ "c # b"]) simp
  qed
qed

lemma match_json_pattern_None: "(match_json_pattern s = None) = (\<not> (\<exists>cs. s = CHR ''{'' # cs \<and> closes cs))"
  by (cases s) (auto simp: match_json_pattern_def match_lazy_None[symmetric] split: option.splits)

lemma match_json_pattern_Some_iff:
  "(\<exists>mr. match_json_pattern (c # cs) = Some mr) = (c = CHR ''{'' \<and> closes cs)"
  using match_json_pattern_None[of "c # cs"] by auto

lemma re_findall_Nil: "(re_findall t = []) = (\<not> has_match t)"
proof (induction t rule: re_findall.induct)
  case 1
  then show ?case by simp
next
  case (2 c cs)
  show ?case
  proof (cases "match_json_pattern (c # cs)")
    case None
    then have "\<not> (c = CHR ''{'' \<and> closes cs)"
      using match_json_pattern_Some_iff[of c cs] by simp
    with None 2 show ?thesis by simp
  next
    case (Some mr)
    then have "c = CHR ''{'' \<and> closes cs"
      using match_json_pattern_Some_iff[of c cs] by blast
    with Some show ?thesis by (cases mr) simp
  qed
qed

lemma closes_re_sub: "\<not> closes cs \<Longrightarrow> \<not> closes (re_sub cs)"
proof (induction cs rule: re_sub.induct)
  case 1
  then show ?case by simp
next
  case (2 c cs)
  from "2.prems" have nc: "c \<noteq> CHR ''}''" and rest: "c = CHR ''\<newline>'' \<or> \<not> closes cs" by auto
  show ?case
  proof (cases "match_json_pattern (c # cs)")
    case None
    with 2 nc rest show ?thesis by auto
  next
    case (Some mr)
    then obtain cs' where "c = CHR ''{''" "closes cs" 
      using match_json_pattern_None[of "c # cs"] by auto
    with rest show ?thesis by simp
  qed
qed

lemma no_match_re_sub: "\<not> has_match (re_sub t)"
proof (induction t rule: re_sub.induct)
  case 1
  then show ?case by simp
next
  case (2 c cs)
  show ?case
  proof (cases "match_json_pattern (c # cs)")
    case None
    then have "\<not> (c = CHR ''{'' \<and> closes cs)" using match_json_pattern_None[of "c # cs"] by auto
    then have "\<not> (c = CHR ''{'' \<and> closes (re_sub cs))" using closes_re_sub by blast
    with None 2 show ?thesis by simp
  next
    case (Some mr)
    with 2 show ?thesis by (cases mr) simp
  qed
qed


lemma closes_append_left: "CHR ''\<newline>'' \<notin> set u \<Longrightarrow> closes x \<Longrightarrow> closes (u @ x)"
  by (induction u) auto

lemma closes_append_right: "closes x \<Longrightarrow> closes (x @ y)"
  by (induction x) auto

lemma has_match_append_left: "has_match x \<Longrightarrow> has_match (u @ x)"
  by (induction u) auto

lemma has_match_append_right: "has_match x \<Longrightarrow> has_match (x @ y)"
  by (induction x) (auto simp: closes_append_right)

lemma closes_str_delete:
  "old \<noteq> [] \<Longrightarrow> CHR ''\<newline>'' \<notin> set old \<Longrightarrow> closes (str_replace s old []) \<Longrightarrow> closes s"
proof (induction s old "[] :: string" rule: str_replace.induct)
  case (1 old)
  then show ?case by simp
next
  case (2 c cs old)
  show ?case
  proof (cases "prefix old (c # cs)")
    case True
    then obtain r where r: "c # cs = old @ r" by (auto simp: prefix_def)
    then have d: "drop (length old) (c # cs) = r" by (metis append_eq_conv_conj)
    from 2 True have "closes (drop (length old) (c # cs))" by simp
    with d r "2.prems"(2) show ?thesis using closes_append_left[of old r] by simp
  next
    case False
    with 2 show ?thesis by auto
  qed
qed

lemma has_match_str_delete:
  "old \<noteq> [] \<Longrightarrow> CHR ''\<newline>'' \<notin> set old \<Longrightarrow> has_match (str_replace s old []) \<Longrightarrow> has_match s"
proof (induction s old "[] :: string" rule: str_replace.induct)
  case (1 old)
  then show ?case by simp
next
  case (2 c cs old)
  show ?case
  proof (cases "prefix old (c # cs)")
    case True
    then obtain r where r: "c # cs = old @ r" by (auto simp: prefix_def)
    then have d: "drop (length old) (c # cs) = r" by (metis append_eq_conv_conj)
    from 2 True have "has_match (drop (length old) (c # cs))" by simp
    with d r show ?thesis using has_match_append_left[of r old] by simp
  next
    case False
    with "2.prems" have "(c = CHR ''{'' \<and> closes (str_replace cs old [])) \<or> has_match (str_replace cs old [])"
      by simp
    with 2 False show ?thesis using closes_str_delete[of old cs] by auto
  qed
qed

lemma has_match_dropWhile: "has_match (dropWhile P s) \<Longrightarrow> has_match s"
  using has_match_append_left[of "dropWhile P s" "takeWhile P s"] by simp

lemma has_match_str_strip: "has_match (str_strip s) \<Longrightarrow> has_match s"
proof -
  assume h: "has_match (str_strip s)"
  let ?t = "dropWhile py_isspace s"
  have "?t = rev (rev ?t)" by simp
  also have "\<dots> = rev (takeWhile py_isspace (rev ?t) @ dropWhile py_isspace (rev ?t))" by simp
  also have "\<dots> = str_strip s @ rev (takeWhile py_isspace (rev ?t))"
    by (simp only: rev_append str_strip_def)
  finally have "?t = str_strip s @ rev (takeWhile py_isspace (rev ?t))" .
  with h have "has_match ?t" using has_match_append_right by metis
  then show ?thesis by (rule has_match_dropWhile)
qed

lemma no_match_clean_content: "\<not> has_match (clean_content c)"
proof
  assume "has_match (clean_content c)"
  then have "has_match (str_replace (str_replace (re_sub c) ''$ActionRequired'' []) ''$NoActionRequired'' [])"
    unfolding clean_content_def remove_json_objects_def by (rule has_match_str_strip)
  then have "has_match (str_replace (re_sub c) ''$ActionRequired'' [])"
    by (rule has_match_str_delete[rotated 2]) simp_all
  then have "has_match (re_sub c)"
    by (rule has_match_str_delete[rotated 2]) simp_all
  then show False using no_match_re_sub by blast
qed

lemma valid_jsons_filter: "valid_jsons env ps = filter (\<lambda>p. json_loads env p \<noteq> None) ps"
  by (induction ps) (auto split: option.splits)

lemma extract_no_match: "\<not> has_match t \<Longrightarrow> extract_json_objects env t = []"
  by (simp add: extract_json_objects_def re_findall_Nil[symmetric])

lemma match_lazy_piece:
  "CHR ''}'' \<notin> set b \<Longrightarrow> CHR ''\<newline>'' \<notin> set b \<Longrightarrow>
   match_lazy (b @ CHR ''}'' # cs) = Some (b @ [CHR ''}''], cs)"
  by (induction b) auto

lemma match_json_pattern_piece:
  "CHR ''}'' \<notin> set b \<Longrightarrow> CHR ''\<newline>'' \<notin> set b \<Longrightarrow>
   match_json_pattern (CHR ''{'' # b @ CHR ''}'' # cs) = Some (CHR ''{'' # b @ [CHR ''}''], cs)"
  by (simp add: match_json_pattern_def match_lazy_piece)

lemma match_json_pattern_keep:
  "c \<noteq> CHR ''{'' \<or> \<not> closes cs \<Longrightarrow> match_json_pattern (c # cs) = None"
  using match_json_pattern_Some_iff[of c cs] by (cases "match_json_pattern (c # cs)") auto

lemma match_json_pattern_shape:
  assumes "match_json_pattern (c # cs) = Some (m, r)"
  shows "\<exists>b. c # cs = CHR ''{'' # b @ CHR ''}'' # r \<and> m = CHR ''{'' # b @ [CHR ''}''] \<and>
             CHR ''}'' \<notin> set b \<and> CHR ''\<newline>'' \<notin> set b"
proof -
  from assms obtain m' where c: "c = CHR ''{''" and m': "match_lazy cs = Some (m', r)" "m = c # m'"
    by (auto simp: match_json_pattern_def split: if_splits option.splits)
  from match_lazy_Some[OF m'(1)] obtain b where
    "m' = b @ [CHR ''}'']" "cs = m' @ r" "CHR ''}'' \<notin> set b" "CHR ''\<newline>'' \<notin> set b"
    by blast
  with c m' show ?thesis by (intro exI[of _ b]) simp
qed

lemma segmentation_unique:
  "segmentation t ms r \<Longrightarrow> ms = re_findall t \<and> r = re_sub t"
  by (induction rule: segmentation.induct)
     (simp_all add: match_json_pattern_keep match_json_pattern_piece)

lemma segmentation_exists: "segmentation t (re_findall t) (re_sub t)"
proof (induction t rule: re_findall.induct)
  case 1
  show ?case by (simp add: seg_end)
next
  case (2 c cs)
  show ?case
  proof (cases "match_json_pattern (c # cs)")
    case None
    then have "c \<noteq> CHR ''{'' \<or> \<not> closes cs"
      using match_json_pattern_Some_iff[of c cs] by auto
    with None 2 show ?thesis by (simp add: seg_keep)
  next
    case (Some mr)
    obtain m r where mr: "mr = (m, r)" by (cases mr)
    from match_json_pattern_shape[OF Some[unfolded mr]] obtain b where b:
      "c # cs = CHR ''{'' # b @ CHR ''}'' # r" "m = CHR ''{'' # b @ [CHR ''}'']"
      "CHR ''}'' \<notin> set b" "CHR ''\<newline>'' \<notin> set b" by blast
    from 2 Some mr have "segmentation r (re_findall r) (re_sub r)" by simp
    from seg_piece[OF b(3,4) this] have
      "segmentation (c # cs) (m # re_findall r) (re_sub r)" using b(1,2) by simp
    with Some mr show ?thesis by simp
  qed
qed

lemma re_findall_shape:
  "m \<in> set (re_findall t) \<Longrightarrow>
   \<exists>b. m = CHR ''{'' # b @ [CHR ''}''] \<and> CHR ''}'' \<notin> set b \<and> CHR ''\<newline>'' \<notin> set b"
proof (induction t rule: re_findall.induct)
  case 1
  then show ?case by simp
next
  case (2 c cs)
  show ?case
  proof (cases "match_json_pattern (c # cs)")
    case None
    with 2 show ?thesis by simp
  next
    case (Some mr)
    obtain m' r where mr: "mr = (m', r)" by (cases mr)
    from "2.prems" Some mr have "m = m' \<or> m \<in> set (re_findall r)" by simp
    then show ?thesis
    proof
      assume "m = m'"
      with match_json_pattern_shape[OF Some[unfolded mr]] show ?thesis by blast
    next
      assume "m \<in> set (re_findall r)"
      with 2 Some mr show ?thesis by simp
    qed
  qed
qed


section \<open>What \<^verbatim>\<open>extract_json_objects\<close> and \<^verbatim>\<open>remove_json_objects\<close> find\<close>

text \<open>
  Claim C10, as the code has it. For every text, \<^verbatim>\<open>extract_json_objects\<close> returns, in order,
  exactly those pieces of the text's one segmentation that \<^verbatim>\<open>json.loads\<close> accepts, and
  \<^verbatim>\<open>remove_json_objects\<close> returns what the segmentation leaves, whether or not a piece is
  valid JSON. A piece runs from an opening brace to the first closing brace after it
  \<^emph>\<open>on the same line\<close>. So a piece holds no closing brace before its end (an object with
  a nested object is neither extracted nor removed whole), and what remains holds no
  opening brace that is closed on its line, service directive or not.
\<close>

theorem extract_remove_single_line_pieces:
  "(\<exists>ms. segmentation t ms (remove_json_objects t) \<and>
          extract_json_objects env t = filter (\<lambda>m. json_loads env m \<noteq> None) ms) \<and>
   (\<forall>ms r. segmentation t ms r \<longrightarrow>
      r = remove_json_objects t \<and>
      extract_json_objects env t = filter (\<lambda>m. json_loads env m \<noteq> None) ms) \<and>
   (\<forall>m \<in> set (extract_json_objects env t).
      \<exists>b. m = CHR ''{'' # b @ [CHR ''}''] \<and> CHR ''}'' \<notin> set b \<and> CHR ''\<newline>'' \<notin> set b) \<and>
   \<not> has_match (remove_json_objects t)"
proof (intro conjI allI impI ballI)
  show "\<exists>ms. segmentation t ms (remove_json_objects t) \<and>
          extract_json_objects env t = filter (\<lambda>m. json_loads env m \<noteq> None) ms"
    using segmentation_exists[of t]
    by (auto simp: remove_json_objects_def extract_json_objects_def valid_jsons_filter)
next
  fix ms r assume "segmentation t ms r"
  then have "ms = re_findall t" "r = re_sub t" using segmentation_unique by blast+
  then show "r = remove_json_objects t"
    and "extract_json_objects env t = filter (\<lambda>m. json_loads env m \<noteq> None) ms"
    by (simp_all add: remove_json_objects_def extract_json_objects_def valid_jsons_filter)
next
  fix m assume "m \<in> set (extract_json_objects env t)"
  then have "m \<in> set (re_findall t)"
    by (simp add: extract_json_objects_def valid_jsons_filter)
  then show "\<exists>b. m = CHR ''{'' # b @ [CHR ''}''] \<and> CHR ''}'' \<notin> set b \<and> CHR ''\<newline>'' \<notin> set b"
    by (rule re_findall_shape)
next
  show "\<not> has_match (remove_json_objects t)"
    by (simp add: remove_json_objects_def no_match_re_sub)
qed


text \<open>
  The theorem at the text \<^verbatim>\<open>{"a": {"b": 1}} ok\<close>: its one piece stops at the first closing
  brace, is not valid JSON and so is not extracted, and the second closing brace stays.
\<close>

theorem extract_remove_single_line_pieces_witness:
  "segmentation ''{\"a\": {\"b\": 1}} ok'' [''{\"a\": {\"b\": 1}''] ''} ok'' \<and>
   remove_json_objects ''{\"a\": {\"b\": 1}} ok'' = ''} ok'' \<and>
   extract_json_objects (example_env 1 False (llm_says [])) ''{\"a\": {\"b\": 1}} ok'' = []"
proof -
  have s: "segmentation ''{\"a\": {\"b\": 1}} ok'' [''{\"a\": {\"b\": 1}''] ''} ok''"
    using seg_piece[of "''\"a\": {\"b\": 1''" "''} ok''" "[]" "''} ok''"]
    by (simp add: seg_keep seg_end)
  from extract_remove_single_line_pieces[of "''{\"a\": {\"b\": 1}} ok''" "example_env 1 False (llm_says [])"] s
  have "''} ok'' = remove_json_objects ''{\"a\": {\"b\": 1}} ok'' \<and>
        extract_json_objects (example_env 1 False (llm_says [])) ''{\"a\": {\"b\": 1}} ok'' =
        filter (\<lambda>m. json_loads (example_env 1 False (llm_says [])) m \<noteq> None) [''{\"a\": {\"b\": 1}'']"
    by blast
  with s show ?thesis
    by (simp add: example_env_def json_loads_ex_def directive_light_def directive_script_def
        directive_restart_def directive_no_service_def directive_two_lines_def)
qed


text \<open>
  Claim C10 as it is written speaks of every minimal brace-delimited substring. The text
  of an opening brace, a newline and a closing brace is one, and \<^verbatim>\<open>json.loads\<close> accepts it
  (the empty object), but the dot of the pattern does not match the newline: it is
  neither extracted nor removed.
\<close>

theorem multi_line_object_counterexample:
  "json_loads (example_env 1 False (llm_says [])) [CHR ''{'', CHR ''\<newline>'', CHR ''}''] = Some (JObject []) \<and>
   extract_json_objects (example_env 1 False (llm_says [])) [CHR ''{'', CHR ''\<newline>'', CHR ''}''] = [] \<and>
   remove_json_objects [CHR ''{'', CHR ''\<newline>'', CHR ''}''] = [CHR ''{'', CHR ''\<newline>'', CHR ''}'']"
  by (simp add: example_env_def json_loads_ex_def directive_light_def directive_script_def
        directive_restart_def directive_no_service_def directive_two_lines_def
        extract_json_objects_def remove_json_objects_def match_json_pattern_def)


section \<open>Properties of the loop over the service directives\<close>

lemma global_name_lOGGER: "global_name ''_lOGGER'' = Inl (NameError ''_lOGGER'')"
  by (simp add: global_name_def module_globals_def)

lemma str_split_first: "\<exists>ps. str_split s sep = takeWhile (\<lambda>c. c \<noteq> sep) s # ps"
  by (induction s) (auto split: list.splits)

lemma first_is_script:
  "(takeWhile (\<lambda>c. c \<noteq> CHR ''.'') s = ''script'') = (s = ''script'' \<or> prefix ''script.'' s)"
proof
  assume t: "takeWhile (\<lambda>c. c \<noteq> CHR ''.'') s = ''script''"
  have s: "s = ''script'' @ dropWhile (\<lambda>c. c \<noteq> CHR ''.'') s"
    using takeWhile_dropWhile_id[of "\<lambda>c. c \<noteq> CHR ''.''" s] t by simp
  show "s = ''script'' \<or> prefix ''script.'' s"
  proof (cases "dropWhile (\<lambda>c. c \<noteq> CHR ''.'') s")
    case Nil
    with s show ?thesis by simp
  next
    case (Cons x xs)
    then have "x = CHR ''.''" using hd_dropWhile[of "\<lambda>c. c \<noteq> CHR ''.''" s] by simp
    with s Cons have "s = ''script.'' @ xs" by simp
    then show ?thesis by (metis prefixI)
  qed
next
  assume "s = ''script'' \<or> prefix ''script.'' s"
  then show "takeWhile (\<lambda>c. c \<noteq> CHR ''.'') s = ''script''"
    by (auto simp: prefix_def)
qed

lemma call_service_script:
  assumes "json_loads env segment = Some (JObject d)"
    and "map_of d ''service'' = Some (JString service)"
    and "str_split service (CHR ''.'') = ''script'' # parts"
  shows "call_service env tr segment =
           (tr @ [ServiceCalled ''script'' ''turn_on''
                    [(''entity_id'', JString service),
                     (''variables'', JObject (filter (\<lambda>kv. fst kv \<noteq> ''service'') d))]],
            case services_async_call env tr ''script'' ''turn_on''
                   [(''entity_id'', JString service),
                    (''variables'', JObject (filter (\<lambda>kv. fst kv \<noteq> ''service'') d))] of
              Some e \<Rightarrow> Inl e
            | None \<Rightarrow> Inr (Some (yaml_dump env (JObject
                  [(''entity_id'', JString service),
                   (''variables'', JObject (filter (\<lambda>kv. fst kv \<noteq> ''service'') d)),
                   (''service'', JString ''script.turn_on'')]))))"
  using assms by (simp add: call_service_def Let_def split: option.splits)

lemma call_service_other:
  assumes "json_loads env segment = Some (JObject d)"
    and "map_of d ''service'' = Some (JString service)"
    and "str_split service (CHR ''.'') = domain # name # parts"
    and "domain \<noteq> ''script''"
    and "filter (\<lambda>kv. fst kv \<noteq> ''service'') d \<noteq> []"
  shows "call_service env tr segment =
           (tr @ [ServiceCalled domain name (filter (\<lambda>kv. fst kv \<noteq> ''service'') d)],
            case services_async_call env tr domain name (filter (\<lambda>kv. fst kv \<noteq> ''service'') d) of
              Some e \<Rightarrow> Inl e
            | None \<Rightarrow> Inr (Some (yaml_dump env (JObject
                  (filter (\<lambda>kv. fst kv \<noteq> ''service'') d @ [(''service'', JString service)])))))"
proof -
  from assms(3) have "service \<noteq> []" by (cases service) auto
  with assms show ?thesis by (simp add: call_service_def Let_def split: option.splits)
qed

lemma call_service_skipped:
  assumes "json_loads env segment = Some (JObject d)"
    and "map_of d ''service'' = Some (JString service)"
    and "str_split service (CHR ''.'') = domain # parts"
    and "domain \<noteq> ''script''"
    and "filter (\<lambda>kv. fst kv \<noteq> ''service'') d = []"
  shows "call_service env tr segment = (tr, Inr None)"
  using assms by (simp add: call_service_def Let_def)


lemma call_service_events:
  "\<exists>calls. fst (call_service env tr segment) = tr @ calls \<and> list_all is_ServiceCalled calls"
  by (auto simp: call_service_def Let_def split: option.splits json.splits list.splits if_splits)

lemma call_service_continue: "call_service env tr segment = (tr', Inr None) \<Longrightarrow> tr' = tr"
  by (auto simp: call_service_def Let_def split: option.splits json.splits list.splits if_splits)

lemma call_service_called:
  "call_service env tr segment = (tr', Inr (Some dumped)) \<Longrightarrow>
   \<exists>domain name data. tr' = tr @ [ServiceCalled domain name data]"
  by (auto simp: call_service_def Let_def split: option.splits json.splits list.splits if_splits)

lemma for_segments_error:
  "for_segments env tr segs sc f = (tr', Inl e) \<Longrightarrow> e = NameError ''_lOGGER''"
proof (induction segs arbitrary: tr sc f)
  case Nil
  then show ?case by simp
next
  case (Cons segment rest)
  obtain tr1 r1 where c: "call_service env tr segment = (tr1, r1)" by (cases "call_service env tr segment")
  show ?case
  proof (cases r1)
    case (Inl ex)
    with Cons.prems c show ?thesis by (simp add: global_name_lOGGER)
  next
    case (Inr x)
    with Cons.prems c Cons.IH show ?thesis by (cases x) auto
  qed
qed

lemma for_segments_returned:
  "for_segments env tr segs sc f = (tr', Inr (sc', f')) \<Longrightarrow>
   f' = f \<and> (\<exists>calls. tr' = tr @ calls \<and> list_all is_ServiceCalled calls \<and>
                     length sc' = length sc + length calls)"
proof (induction segs arbitrary: tr sc)
  case Nil
  then show ?case by simp
next
  case (Cons segment rest)
  obtain tr1 r1 where c: "call_service env tr segment = (tr1, r1)" by (cases "call_service env tr segment")
  show ?case
  proof (cases r1)
    case (Inl ex)
    with Cons.prems c show ?thesis by (simp add: global_name_lOGGER)
  next
    case (Inr x)
    show ?thesis
    proof (cases x)
      case None
      with c Inr have "tr1 = tr" using call_service_continue by blast
      with Cons.prems c Inr None Cons.IH[of tr sc] show ?thesis by simp
    next
      case (Some dumped)
      with c Inr obtain domain name data where t: "tr1 = tr @ [ServiceCalled domain name data]"
        using call_service_called by blast
      from Cons.prems c Inr Some have "for_segments env tr1 rest (sc @ [dumped]) f = (tr', Inr (sc', f'))"
        by simp
      from Cons.IH[OF this] obtain calls where
        "f' = f" "tr' = tr1 @ calls" "list_all is_ServiceCalled calls"
        "length sc' = length (sc @ [dumped]) + length calls" by blast
      with t show ?thesis
        by (intro conjI exI[of _ "ServiceCalled domain name data # calls"]) simp_all
    qed
  qed
qed

lemma for_segments_events:
  "\<exists>calls. fst (for_segments env tr segs sc f) = tr @ calls \<and> list_all is_ServiceCalled calls"
proof (induction segs arbitrary: tr sc f)
  case Nil
  then show ?case by simp
next
  case (Cons segment rest)
  obtain tr1 r1 where c: "call_service env tr segment = (tr1, r1)" by (cases "call_service env tr segment")
  from call_service_events[of env tr segment] c obtain calls1 where
    c1: "tr1 = tr @ calls1" "list_all is_ServiceCalled calls1" by auto
  have "\<exists>calls. fst (for_segments env tr (segment # rest) sc f) = tr1 @ calls \<and> list_all is_ServiceCalled calls"
  proof (cases r1)
    case (Inl ex)
    with c show ?thesis by (simp add: global_name_lOGGER)
  next
    case (Inr x)
    with c Cons.IH[of tr1] show ?thesis by (cases x) simp_all
  qed
  then obtain calls where "fst (for_segments env tr (segment # rest) sc f) = tr1 @ calls"
    "list_all is_ServiceCalled calls" by blast
  with c1 show ?case by (intro exI[of _ "calls1 @ calls"]) simp
qed

lemma for_segments_append:
  "for_segments env tr pre sc f = (tr1, Inr (sc1, f1)) \<Longrightarrow>
   for_segments env tr (pre @ l) sc f = for_segments env tr1 l sc1 f1"
proof (induction pre arbitrary: tr sc)
  case Nil
  then show ?case by simp
next
  case (Cons segment rest)
  obtain tr0 r0 where c: "call_service env tr segment = (tr0, r0)" by (cases "call_service env tr segment")
  show ?case
  proof (cases r0)
    case (Inl ex)
    with Cons.prems c show ?thesis by (simp add: global_name_lOGGER)
  next
    case (Inr x)
    with Cons.prems c Cons.IH show ?thesis by (cases x) auto
  qed
qed


lemma process_message_returned:
  "process_message env st message = (st', Inr (sc, m)) \<Longrightarrow>
   \<exists>c. msg_content message = Some c \<and>
       m = message\<lparr>msg_content := Some (clean_content (str_replace c [CHR 0x5C] []))\<rparr>"
proof -
  assume p: "process_message env st message = (st', Inr (sc, m))"
  then obtain c where c: "msg_content message = Some c"
    by (cases "msg_content message") (auto simp: process_message_def)
  let ?c1 = "str_replace c [CHR 0x5C] []"
  show ?thesis
  proof (cases "str_contains ''$ActionRequired'' ?c1")
    case False
    with p c show ?thesis by (auto simp: process_message_def)
  next
    case True
    obtain tr r where f: "for_segments env (st_trace st) (extract_json_objects env ?c1) [] False = (tr, r)"
      by (cases "for_segments env (st_trace st) (extract_json_objects env ?c1) [] False")
    show ?thesis
    proof (cases r)
      case (Inl e)
      with p c True f show ?thesis by (simp add: process_message_def)
    next
      case (Inr x)
      obtain sc' f' where x: "x = (sc', f')" by (cases x)
      with f Inr have "f' = False" using for_segments_returned by blast
      with p c True f Inr x show ?thesis by (auto simp: process_message_def)
    qed
  qed
qed

lemma process_message_events:
  "\<exists>calls. st_trace (fst (process_message env st message)) = st_trace st @ calls \<and>
           list_all is_ServiceCalled calls \<and>
           st_messages (fst (process_message env st message)) = st_messages st"
proof (cases "msg_content message")
  case None
  then show ?thesis by (simp add: process_message_def)
next
  case (Some c)
  let ?c1 = "str_replace c [CHR 0x5C] []"
  show ?thesis
  proof (cases "str_contains ''$ActionRequired'' ?c1")
    case False
    with Some show ?thesis by (simp add: process_message_def)
  next
    case True
    obtain tr r where f: "for_segments env (st_trace st) (extract_json_objects env ?c1) [] False = (tr, r)"
      by (cases "for_segments env (st_trace st) (extract_json_objects env ?c1) [] False")
    from for_segments_events[of env "st_trace st" "extract_json_objects env ?c1" "[]" False] f
    obtain calls where cl: "tr = st_trace st @ calls" "list_all is_ServiceCalled calls" by auto
    have "fst (process_message env st message) = st\<lparr>st_trace := tr\<rparr>"
      using Some True f by (cases r) (auto simp: process_message_def Let_def split: prod.splits)
    with cl show ?thesis by simp
  qed
qed

lemma process_message_no_match:
  assumes "msg_content message = Some c" and "\<not> has_match (str_replace c [CHR 0x5C] [])"
  shows "process_message env st message =
         (st, Inr ([], message\<lparr>msg_content := Some (clean_content (str_replace c [CHR 0x5C] []))\<rparr>))"
  using assms by (simp add: process_message_def Let_def extract_no_match)

lemmas example_defs = example_env_def json_loads_ex_def directive_light_def directive_script_def
  directive_restart_def directive_no_service_def directive_two_lines_def example_setting_def
  assistant_def calling_def llm_says_def llm_calls_once_def llm_calls_when_allowed_def
  example_input_def

lemma example_get_functions: "get_functions (example_env N ig llm) = Inr [example_setting]"
  by (simp add: get_functions_def example_env_def example_setting_def)

lemma query_plain_answer:
  assumes "get_functions env = Inr settings"
    and "chat_completions_create env (st_trace st) (build_request env settings (st_messages st) n) =
           Inr (choice # choices)"
    and "finish_reason choice \<noteq> ''function_call''"
  shows "query (Suc k) env ui ee st n =
           Some (process_message env
                  (st\<lparr>st_trace := st_trace st @ [ChatRequest (build_request env settings (st_messages st) n)]\<rparr>)
                  (choice_message choice))"
  using assms by (simp add: query_body_def Let_def py_index_def)

lemma call_service_no_service:
  "json_loads env segment = Some (JObject d) \<Longrightarrow> map_of d ''service'' = None \<Longrightarrow>
   call_service env tr segment = (tr, Inl (KeyError ''service''))"
  by (simp add: call_service_def)

lemma call_service_expected_host:
  assumes "expected_call env segment = Some (ServiceCalled domain name data)"
  shows "\<exists>dumped. call_service env tr segment =
           (tr @ [ServiceCalled domain name data],
            case services_async_call env tr domain name data of
              Some e \<Rightarrow> Inl e
            | None \<Rightarrow> Inr (Some dumped))"
proof -
  from assms obtain d where d: "json_loads env segment = Some (JObject d)"
    by (auto simp: expected_call_def split: option.splits json.splits)
  with assms obtain service where s: "map_of d ''service'' = Some (JString service)"
    by (auto simp: expected_call_def split: option.splits json.splits)
  let ?others = "filter (\<lambda>kv. fst kv \<noteq> ''service'') d"
  from assms d s obtain dom parts where sp: "str_split service (CHR ''.'') = dom # parts"
    by (cases "str_split service (CHR ''.'')") (auto simp: expected_call_def)
  show ?thesis
  proof (cases "dom = ''script''")
    case True
    with assms d s sp have "ServiceCalled domain name data = ServiceCalled ''script'' ''turn_on''
        [(''entity_id'', JString service), (''variables'', JObject ?others)]"
      by (cases parts) (auto simp: expected_call_def Let_def)
    with call_service_script[OF d s sp[unfolded True], of tr] show ?thesis by auto
  next
    case False
    with assms d s sp obtain nm parts' where m: "parts = nm # parts'"
      by (cases parts) (auto simp: expected_call_def Let_def)
    with False assms d s sp have o: "?others \<noteq> []"
      and "ServiceCalled domain name data = ServiceCalled dom nm ?others"
      by (auto simp: expected_call_def Let_def split: if_splits)
    with call_service_other[OF d s sp[unfolded m] False o, of tr] show ?thesis by auto
  qed
qed

lemma run_turn_unhandled:
  assumes "query fuel env ui ee \<lparr>st_trace = tr, st_messages = ms0 @ [user_message env ui]\<rparr> 0 =
             Some (st', Inl err)"
    and "\<not> is_OpenAIError err" and "\<not> is_HomeAssistantError err"
  shows "\<exists>hist'. run_turn fuel env hist tr ui ee cid aliased ms0 =
           Some ((hist', st_trace st'), Inl err)"
  using assms by (simp add: run_turn_def)

section \<open>Script directives and the others\<close>

text \<open>
  Claim C5, as the code has it. Take a directive: a JSON object \<open>d\<close> with the string
  \<open>service\<close> under \<^verbatim>\<open>"service"\<close>. If the domain of \<open>service\<close> is \<^verbatim>\<open>script\<close> (the service is
  \<^verbatim>\<open>script\<close> or starts with \<^verbatim>\<open>script.\<close>), the host call is \<^verbatim>\<open>script.turn_on\<close> with \<^verbatim>\<open>entity_id\<close>
  the original service string and every other key of the directive under \<^verbatim>\<open>variables\<close>.
  A directive of another domain that has at least one more key and a name after the
  domain is called as it is: domain and name are the first two parts of the service
  string, the data are the other keys. A directive of another domain with no other key
  is skipped with no host call (the guard \<^verbatim>\<open>if not service or not service_call\<close>).
\<close>

theorem script_directive_special_cased:
  assumes "json_loads env segment = Some (JObject d)"
    and "map_of d ''service'' = Some (JString service)"
  shows "(service = ''script'' \<or> prefix ''script.'' service \<longrightarrow>
            fst (call_service env tr segment) =
              tr @ [ServiceCalled ''script'' ''turn_on''
                      [(''entity_id'', JString service),
                       (''variables'', JObject (filter (\<lambda>kv. fst kv \<noteq> ''service'') d))]]) \<and>
         (\<forall>domain name parts.
            str_split service (CHR ''.'') = domain # name # parts \<and> domain \<noteq> ''script'' \<and>
            filter (\<lambda>kv. fst kv \<noteq> ''service'') d \<noteq> [] \<longrightarrow>
            fst (call_service env tr segment) =
              tr @ [ServiceCalled domain name (filter (\<lambda>kv. fst kv \<noteq> ''service'') d)]) \<and>
         (service \<noteq> ''script'' \<and> \<not> prefix ''script.'' service \<and>
            filter (\<lambda>kv. fst kv \<noteq> ''service'') d = [] \<longrightarrow>
            call_service env tr segment = (tr, Inr None))"
proof (intro conjI allI impI)
  assume "service = ''script'' \<or> prefix ''script.'' service"
  then have "takeWhile (\<lambda>c. c \<noteq> CHR ''.'') service = ''script''" by (simp add: first_is_script)
  with str_split_first[of service "CHR ''.''"] obtain parts where
    "str_split service (CHR ''.'') = ''script'' # parts" by auto
  from call_service_script[OF assms this, of tr]
  show "fst (call_service env tr segment) =
          tr @ [ServiceCalled ''script'' ''turn_on''
                  [(''entity_id'', JString service),
                   (''variables'', JObject (filter (\<lambda>kv. fst kv \<noteq> ''service'') d))]]"
    by simp
next
  fix domain name parts
  assume "str_split service (CHR ''.'') = domain # name # parts \<and> domain \<noteq> ''script'' \<and>
          filter (\<lambda>kv. fst kv \<noteq> ''service'') d \<noteq> []"
  then show "fst (call_service env tr segment) =
          tr @ [ServiceCalled domain name (filter (\<lambda>kv. fst kv \<noteq> ''service'') d)]"
    using call_service_other[OF assms, of domain name parts tr] by simp
next
  assume a: "service \<noteq> ''script'' \<and> \<not> prefix ''script.'' service \<and>
          filter (\<lambda>kv. fst kv \<noteq> ''service'') d = []"
  from str_split_first[of service "CHR ''.''"] obtain parts where
    p: "str_split service (CHR ''.'') = takeWhile (\<lambda>c. c \<noteq> CHR ''.'') service # parts" by auto
  from a have "takeWhile (\<lambda>c. c \<noteq> CHR ''.'') service \<noteq> ''script''" by (simp add: first_is_script)
  with a show "call_service env tr segment = (tr, Inr None)"
    using call_service_skipped[OF assms p] by simp
qed

text \<open>
  The theorem at \<^verbatim>\<open>{"service": "script.bedtime", "delay": 5}\<close> and at
  \<^verbatim>\<open>{"service": "light.turn_on", "entity_id": "light.kitchen"}\<close>.
\<close>

theorem script_directive_special_cased_witness:
  "fst (call_service (example_env 1 False (llm_says [])) [] directive_script) =
     [ServiceCalled ''script'' ''turn_on''
        [(''entity_id'', JString ''script.bedtime''),
         (''variables'', JObject [(''delay'', JNumber ''5'')])]] \<and>
   fst (call_service (example_env 1 False (llm_says [])) [] directive_light) =
     [ServiceCalled ''light'' ''turn_on'' [(''entity_id'', JString ''light.kitchen'')]]"
proof -
  let ?env = "example_env 1 False (llm_says [])"
  have a: "json_loads ?env directive_script =
             Some (JObject [(''service'', JString ''script.bedtime''), (''delay'', JNumber ''5'')])"
    by (simp add: example_defs)
  have b: "json_loads ?env directive_light =
             Some (JObject [(''service'', JString ''light.turn_on''),
                            (''entity_id'', JString ''light.kitchen'')])"
    by (simp add: example_defs)
  from script_directive_special_cased[OF a, of "''script.bedtime''" "[]"]
  have 1: "fst (call_service ?env [] directive_script) =
     [ServiceCalled ''script'' ''turn_on''
        [(''entity_id'', JString ''script.bedtime''),
         (''variables'', JObject [(''delay'', JNumber ''5'')])]]"
    by simp
  from script_directive_special_cased[OF b, of "''light.turn_on''" "[]"]
  have 2: "fst (call_service ?env [] directive_light) =
     [ServiceCalled ''light'' ''turn_on'' [(''entity_id'', JString ''light.kitchen'')]]"
    by simp
  from 1 2 show ?thesis by simp
qed

text \<open>
  Claim C5 as it is written has every directive of another domain executed as it is.
  \<^verbatim>\<open>{"service": "homeassistant.restart"}\<close> is one; once \<^verbatim>\<open>"service"\<close> is popped nothing is
  left of it, and the loop goes on to the next segment without calling the host.
\<close>

theorem directive_without_data_counterexample:
  "json_loads (example_env 1 False (llm_says [])) directive_restart =
     Some (JObject [(''service'', JString ''homeassistant.restart'')]) \<and>
   call_service (example_env 1 False (llm_says [])) [] directive_restart = ([], Inr None)"
  by (simp add: example_defs call_service_def)

section \<open>An exception in the loop over the directives\<close>

text \<open>
  Claim C8. Let a request of \<^verbatim>\<open>query\<close> be answered with a text that holds the sentinel, and
  let one of its extracted segments raise in the body of the \<^verbatim>\<open>try\<close> after the segments
  before it have run. Then the handler raises \<^verbatim>\<open>NameError\<close> for the unbound name
  \<^verbatim>\<open>_lOGGER\<close>, \<^verbatim>\<open>query\<close> ends with it, and when the request was the first of a turn the
  turn ends with it too: \<^verbatim>\<open>async_process\<close> handles neither class it belongs to. A segment
  with no \<^verbatim>\<open>"service"\<close> key raises (KeyError), and so does one whose host call fails.
  The loop never ends with another exception, it never returns with
  \<^verbatim>\<open>service_execution_failed\<close> changed, and a message that \<^verbatim>\<open>query\<close> returns never carries
  the text "An error occurred while executing requested service.": its content is the
  cleaned content of the message of the model.
\<close>

theorem directive_exception_aborts_turn:
  assumes "get_functions env = Inr settings"
    and "chat_completions_create env (st_trace st) (build_request env settings (st_messages st) n) =
           Inr (choice # choices)"
    and "finish_reason choice \<noteq> ''function_call''"
    and "msg_content (choice_message choice) = Some c0"
    and "str_contains ''$ActionRequired'' (str_replace c0 [CHR 0x5C] [])"
    and "extract_json_objects env (str_replace c0 [CHR 0x5C] []) = pre @ segment # rest"
    and "for_segments env
           (st_trace st @ [ChatRequest (build_request env settings (st_messages st) n)])
           pre [] False = (tr1, Inr (sc1, f1))"
    and "call_service env tr1 segment = (tr2, Inl ex)"
  shows "query (Suc k) env ui ee st n = Some (st\<lparr>st_trace := tr2\<rparr>, Inl (NameError ''_lOGGER'')) \<and>
         (\<forall>tr ms0 hist cid aliased.
            st = \<lparr>st_trace = tr, st_messages = ms0 @ [user_message env ui]\<rparr> \<and> n = 0 \<longrightarrow>
            (\<exists>hist'. run_turn (Suc k) env hist tr ui ee cid aliased ms0 =
                       Some ((hist', tr2), Inl (NameError ''_lOGGER'')))) \<and>
         (\<forall>tr0 d. json_loads env segment = Some (JObject d) \<and> map_of d ''service'' = None \<longrightarrow>
            call_service env tr0 segment = (tr0, Inl (KeyError ''service''))) \<and>
         (\<forall>tr0 domain name data e.
            expected_call env segment = Some (ServiceCalled domain name data) \<and>
            services_async_call env tr0 domain name data = Some e \<longrightarrow>
            call_service env tr0 segment = (tr0 @ [ServiceCalled domain name data], Inl e)) \<and>
         (\<forall>tr0 segs sc0 f0 tr' e.
            for_segments env tr0 segs sc0 f0 = (tr', Inl e) \<longrightarrow> e = NameError ''_lOGGER'') \<and>
         (\<forall>tr0 segs sc0 f0 tr' sc' f'.
            for_segments env tr0 segs sc0 f0 = (tr', Inr (sc', f')) \<longrightarrow> f' = f0) \<and>
         (\<forall>st0 m st' sc m'.
            process_message env st0 m = (st', Inr (sc, m')) \<longrightarrow>
            (\<exists>c. msg_content m = Some c \<and>
                 m' = m\<lparr>msg_content := Some (clean_content (str_replace c [CHR 0x5C] []))\<rparr>))"
proof -
  let ?req = "build_request env settings (st_messages st) n"
  let ?st1 = "st\<lparr>st_trace := st_trace st @ [ChatRequest ?req]\<rparr>"
  have loop: "for_segments env (st_trace ?st1) (pre @ segment # rest) [] False =
                (tr2, Inl (NameError ''_lOGGER''))"
    using for_segments_append[OF assms(7), of "segment # rest"] assms(8)
    by (simp add: global_name_lOGGER)
  have "process_message env ?st1 (choice_message choice) =
          (st\<lparr>st_trace := tr2\<rparr>, Inl (NameError ''_lOGGER''))"
    using assms(4,5,6) loop by (simp add: process_message_def Let_def)
  with query_plain_answer[OF assms(1,2,3), of k ui ee]
  have q: "query (Suc k) env ui ee st n = Some (st\<lparr>st_trace := tr2\<rparr>, Inl (NameError ''_lOGGER''))"
    by simp
  have t: "\<forall>tr ms0 hist cid aliased.
            st = \<lparr>st_trace = tr, st_messages = ms0 @ [user_message env ui]\<rparr> \<and> n = 0 \<longrightarrow>
            (\<exists>hist'. run_turn (Suc k) env hist tr ui ee cid aliased ms0 =
                       Some ((hist', tr2), Inl (NameError ''_lOGGER'')))"
  proof (intro allI impI)
    fix tr ms0 hist cid aliased
    assume a: "st = \<lparr>st_trace = tr, st_messages = ms0 @ [user_message env ui]\<rparr> \<and> n = 0"
    with q have "query (Suc k) env ui ee \<lparr>st_trace = tr, st_messages = ms0 @ [user_message env ui]\<rparr> 0 =
                   Some (st\<lparr>st_trace := tr2\<rparr>, Inl (NameError ''_lOGGER''))" by simp
    from run_turn_unhandled[OF this, of hist cid aliased]
    show "\<exists>hist'. run_turn (Suc k) env hist tr ui ee cid aliased ms0 =
                       Some ((hist', tr2), Inl (NameError ''_lOGGER''))" by simp
  qed
  have h: "\<forall>tr0 domain name data e.
            expected_call env segment = Some (ServiceCalled domain name data) \<and>
            services_async_call env tr0 domain name data = Some e \<longrightarrow>
            call_service env tr0 segment = (tr0 @ [ServiceCalled domain name data], Inl e)"
  proof (intro allI impI)
    fix tr0 domain name data e
    assume a: "expected_call env segment = Some (ServiceCalled domain name data) \<and>
            services_async_call env tr0 domain name data = Some e"
    with call_service_expected_host[of env segment domain name data tr0]
    show "call_service env tr0 segment = (tr0 @ [ServiceCalled domain name data], Inl e)" by auto
  qed
  have k: "\<forall>tr0 d. json_loads env segment = Some (JObject d) \<and> map_of d ''service'' = None \<longrightarrow>
            call_service env tr0 segment = (tr0, Inl (KeyError ''service''))"
    using call_service_no_service by blast
  have e: "\<forall>tr0 segs sc0 f0 tr' e.
            for_segments env tr0 segs sc0 f0 = (tr', Inl e) \<longrightarrow> e = NameError ''_lOGGER''"
    using for_segments_error by blast
  have f: "\<forall>tr0 segs sc0 f0 tr' sc' f'.
            for_segments env tr0 segs sc0 f0 = (tr', Inr (sc', f')) \<longrightarrow> f' = f0"
    using for_segments_returned by blast
  have p: "\<forall>st0 m st' sc m'.
            process_message env st0 m = (st', Inr (sc, m')) \<longrightarrow>
            (\<exists>c. msg_content m = Some c \<and>
                 m' = m\<lparr>msg_content := Some (clean_content (str_replace c [CHR 0x5C] []))\<rparr>)"
    using process_message_returned by blast
  show ?thesis
    by (intro conjI) (rule q, rule t, rule k, rule h, rule e, rule f, rule p)
qed

text \<open>
  The theorem at an answer \<^verbatim>\<open>$ActionRequired {"entity_id": "light.kitchen"}\<close>, whose
  directive has no \<^verbatim>\<open>"service"\<close> key.
\<close>

theorem directive_exception_aborts_turn_witness:
  "query 1 (example_env 1 False (llm_says (''$ActionRequired '' @ directive_no_service)))
     (example_input None) [] \<lparr>st_trace = [], st_messages = [user_message (example_env 1 False (llm_says (''$ActionRequired '' @ directive_no_service))) (example_input None)]\<rparr> 0 =
   Some (\<lparr>st_trace =
            [ChatRequest
               \<lparr>req_messages = [user_message (example_env 1 False (llm_says (''$ActionRequired '' @ directive_no_service))) (example_input None)],
                req_functions = Some [\<lparr>spec_name = ''get_state'', spec_body = JNull\<rparr>],
                req_function_call = Some ''auto''\<rparr>],
          st_messages = [user_message (example_env 1 False (llm_says (''$ActionRequired '' @ directive_no_service))) (example_input None)]\<rparr>,
         Inl (NameError ''_lOGGER''))"
proof -
  let ?c = "''$ActionRequired '' @ directive_no_service"
  let ?env = "example_env 1 False (llm_says ?c)"
  let ?st = "\<lparr>st_trace = [], st_messages = [user_message ?env (example_input None)]\<rparr>"
  let ?choice = "\<lparr>finish_reason = ''stop'', choice_message = assistant ?c\<rparr>"
  have 1: "get_functions ?env = Inr [example_setting]" by (rule example_get_functions)
  have 2: "chat_completions_create ?env (st_trace ?st)
             (build_request ?env [example_setting] (st_messages ?st) 0) = Inr (?choice # [])"
    by (simp add: example_env_def llm_says_def)
  have 3: "finish_reason ?choice \<noteq> ''function_call''" by simp
  have 4: "msg_content (choice_message ?choice) = Some ?c" by (simp add: assistant_def)
  have r: "str_replace ?c [CHR 0x5C] [] = ?c" by (simp add: directive_no_service_def)
  have 5: "str_contains ''$ActionRequired'' (str_replace ?c [CHR 0x5C] [])"
    unfolding r by simp
  have 6: "extract_json_objects ?env (str_replace ?c [CHR 0x5C] []) = [] @ directive_no_service # []"
    unfolding r
    by (simp add: extract_json_objects_def match_json_pattern_def example_env_def
        json_loads_ex_def directive_light_def directive_script_def directive_restart_def
        directive_no_service_def directive_two_lines_def)
  have 7: "for_segments ?env
             (st_trace ?st @ [ChatRequest (build_request ?env [example_setting] (st_messages ?st) 0)])
             [] [] False =
           (st_trace ?st @ [ChatRequest (build_request ?env [example_setting] (st_messages ?st) 0)],
            Inr ([], False))"
    by simp
  have 8: "call_service ?env
             (st_trace ?st @ [ChatRequest (build_request ?env [example_setting] (st_messages ?st) 0)])
             directive_no_service =
           (st_trace ?st @ [ChatRequest (build_request ?env [example_setting] (st_messages ?st) 0)],
            Inl (KeyError ''service''))"
    by (simp add: call_service_def example_env_def json_loads_ex_def directive_light_def
        directive_script_def directive_restart_def directive_no_service_def
        directive_two_lines_def)
  from directive_exception_aborts_turn[OF 1 2 3 4 5 6 7 8, of 0 "example_input None" "[]"]
  show ?thesis
    by (simp add: build_request_def example_setting_def example_env_def)
qed

section \<open>The services a message invokes\<close>




section \<open>Function calls\<close>

lemma query_function_call:
  assumes "get_functions env = Inr settings"
    and "chat_completions_create env (st_trace st) (build_request env settings (st_messages st) n) =
           Inr (choice # choices)"
    and "finish_reason choice = ''function_call''"
  shows "query (Suc k) env ui ee st n =
           (case execute_function_call (query k env ui ee) env ui ee
                   (st\<lparr>st_trace := st_trace st @ [ChatRequest (build_request env settings (st_messages st) n)]\<rparr>)
                   (choice_message choice) (n + 1) of
              None \<Rightarrow> None
            | Some (st2, Inl e) \<Rightarrow> Some (st2, Inl e)
            | Some (st2, Inr message) \<Rightarrow> Some (process_message env st2 message))"
  using assms by (simp add: query_body_def Let_def py_index_def)

lemma execute_function_call_found:
  assumes "msg_function_call message = Some fc"
    and "get_functions env = Inr settings"
    and "find (\<lambda>s. spec_name (setting_spec s) = fc_name fc) settings = Some function"
  shows "execute_function_call q env ui ee st message n =
         execute_function q env ui ee st message n function"
  using assms by (simp add: execute_function_call_def)

lemma execute_function_call_not_found:
  assumes "msg_function_call message = Some fc"
    and "get_functions env = Inr settings"
    and "find (\<lambda>s. spec_name (setting_spec s) = fc_name fc) settings = None"
  shows "execute_function_call q env ui ee st message n =
         Some (st, Inl (FunctionNotFound (fc_name fc)))"
  using assms by (simp add: execute_function_call_def)

lemma execute_function_parse_failed:
  assumes "msg_function_call message = Some fc"
    and "get_function_executor env (fn_type (setting_function function)) = Inr function_executor"
    and "json_loads env (fc_arguments fc) = None"
  shows "execute_function q env ui ee st message n function =
         Some (st, Inl (ParseArgumentsFailed (fc_arguments fc)))"
  using assms by (simp add: execute_function_def)

lemma execute_function_executed:
  assumes "msg_function_call message = Some fc"
    and "get_function_executor env (fn_type (setting_function function)) = Inr function_executor"
    and "json_loads env (fc_arguments fc) = Some arguments"
    and "executor_execute env (st_trace st) function_executor (setting_function function)
           arguments ui ee = Inr result"
  shows "execute_function q env ui ee st message n function =
         (case q \<lparr>st_trace = st_trace st @
                     [FunctionExecuted function_executor (setting_function function) arguments],
                   st_messages = st_messages st @
                     [\<lparr>msg_role = ''function'', msg_content = Some (py_str env result),
                       msg_name = Some (fc_name fc), msg_function_call = None\<rparr>]\<rparr> n of
            None \<Rightarrow> None
          | Some (st3, Inl e) \<Rightarrow> Some (st3, Inl e)
          | Some (st3, Inr (services_called, result)) \<Rightarrow> Some (st3, Inr result))"
  using assms by (cases st) (simp add: execute_function_def Let_def)

lemma execute_function_no_executor:
  assumes "get_function_executor env (fn_type (setting_function function)) = Inl e"
  shows "execute_function q env ui ee st message n function = Some (st, Inl e)"
  using assms by (simp add: execute_function_def)

lemma execute_function_raised:
  assumes "msg_function_call message = Some fc"
    and "get_function_executor env (fn_type (setting_function function)) = Inr function_executor"
    and "json_loads env (fc_arguments fc) = Some arguments"
    and "executor_execute env (st_trace st) function_executor (setting_function function)
           arguments ui ee = Inl e"
  shows "execute_function q env ui ee st message n function =
         Some (st\<lparr>st_trace := st_trace st @
                  [FunctionExecuted function_executor (setting_function function) arguments]\<rparr>,
               Inl e)"
  using assms by (simp add: execute_function_def Let_def)

text \<open>
  Claim C6, as the code has it. Let a request of \<^verbatim>\<open>query\<close> be answered with the finish
  reason \<^verbatim>\<open>function_call\<close>, naming a function. If the function is among the configured ones,
  its executor is found, its arguments are valid JSON and the executor returns a result,
  then the executor for the type of the function has run on the parsed arguments (the
  event \<open>FunctionExecuted\<close>), a message with role \<^verbatim>\<open>function\<close>, the name of the function and
  the result as a string has been appended to the messages, and the outcome of \<^verbatim>\<open>query\<close> is
  that of \<^verbatim>\<open>query\<close> on the longer messages with the request counter plus one: its error
  as it is, its message processed once more. If the function is not among the configured
  ones, \<^verbatim>\<open>FunctionNotFound\<close> is raised with its name. If the function is configured but
  its arguments are not valid JSON, \<^verbatim>\<open>query\<close> ends with \<^verbatim>\<open>ParseArgumentsFailed\<close> after the one
  request; if the executor raises, \<^verbatim>\<open>query\<close> ends with its exception after the request and
  the execution; if no executor is found for the type, \<^verbatim>\<open>query\<close> ends with the exception
  of the lookup. In these three cases nothing is appended to the messages and \<^verbatim>\<open>query\<close> is
  not called again.
\<close>

theorem function_call_dispatched:
  assumes "get_functions env = Inr settings"
    and "chat_completions_create env (st_trace st) (build_request env settings (st_messages st) n) =
           Inr (choice # choices)"
    and "finish_reason choice = ''function_call''"
    and "msg_function_call (choice_message choice) = Some fc"
  shows "(\<forall>function function_executor arguments result.
            find (\<lambda>s. spec_name (setting_spec s) = fc_name fc) settings = Some function \<and>
            get_function_executor env (fn_type (setting_function function)) = Inr function_executor \<and>
            json_loads env (fc_arguments fc) = Some arguments \<and>
            executor_execute env
              (st_trace st @ [ChatRequest (build_request env settings (st_messages st) n)])
              function_executor (setting_function function) arguments ui ee = Inr result \<longrightarrow>
            query (Suc k) env ui ee st n =
              (case query k env ui ee
                      \<lparr>st_trace = st_trace st @
                         [ChatRequest (build_request env settings (st_messages st) n),
                          FunctionExecuted function_executor (setting_function function) arguments],
                       st_messages = st_messages st @
                         [\<lparr>msg_role = ''function'', msg_content = Some (py_str env result),
                           msg_name = Some (fc_name fc), msg_function_call = None\<rparr>]\<rparr>
                      (n + 1) of
                 None \<Rightarrow> None
               | Some (st3, Inl e) \<Rightarrow> Some (st3, Inl e)
               | Some (st3, Inr (services_called, message)) \<Rightarrow>
                   Some (process_message env st3 message))) \<and>
         (find (\<lambda>s. spec_name (setting_spec s) = fc_name fc) settings = None \<longrightarrow>
            query (Suc k) env ui ee st n =
              Some (st\<lparr>st_trace := st_trace st @
                       [ChatRequest (build_request env settings (st_messages st) n)]\<rparr>,
                    Inl (FunctionNotFound (fc_name fc)))) \<and>
         (\<forall>function function_executor.
            find (\<lambda>s. spec_name (setting_spec s) = fc_name fc) settings = Some function \<and>
            get_function_executor env (fn_type (setting_function function)) = Inr function_executor \<and>
            json_loads env (fc_arguments fc) = None \<longrightarrow>
            query (Suc k) env ui ee st n =
              Some (st\<lparr>st_trace := st_trace st @
                       [ChatRequest (build_request env settings (st_messages st) n)]\<rparr>,
                    Inl (ParseArgumentsFailed (fc_arguments fc)))) \<and>
         (\<forall>function function_executor arguments e.
            find (\<lambda>s. spec_name (setting_spec s) = fc_name fc) settings = Some function \<and>
            get_function_executor env (fn_type (setting_function function)) = Inr function_executor \<and>
            json_loads env (fc_arguments fc) = Some arguments \<and>
            executor_execute env
              (st_trace st @ [ChatRequest (build_request env settings (st_messages st) n)])
              function_executor (setting_function function) arguments ui ee = Inl e \<longrightarrow>
            query (Suc k) env ui ee st n =
              Some (st\<lparr>st_trace := st_trace st @
                       [ChatRequest (build_request env settings (st_messages st) n),
                        FunctionExecuted function_executor (setting_function function) arguments]\<rparr>,
                    Inl e)) \<and>
         (\<forall>function e.
            find (\<lambda>s. spec_name (setting_spec s) = fc_name fc) settings = Some function \<and>
            get_function_executor env (fn_type (setting_function function)) = Inl e \<longrightarrow>
            query (Suc k) env ui ee st n =
              Some (st\<lparr>st_trace := st_trace st @
                       [ChatRequest (build_request env settings (st_messages st) n)]\<rparr>,
                    Inl e))"
proof (intro conjI allI impI)
  fix fn function_executor arguments result
  let ?req = "build_request env settings (st_messages st) n"
  let ?st1 = "st\<lparr>st_trace := st_trace st @ [ChatRequest ?req]\<rparr>"
  assume a: "find (\<lambda>s. spec_name (setting_spec s) = fc_name fc) settings = Some fn \<and>
            get_function_executor env (fn_type (setting_function fn)) = Inr function_executor \<and>
            json_loads env (fc_arguments fc) = Some arguments \<and>
            executor_execute env (st_trace st @ [ChatRequest ?req])
              function_executor (setting_function fn) arguments ui ee = Inr result"
  then have x: "executor_execute env (st_trace ?st1) function_executor (setting_function fn)
                  arguments ui ee = Inr result" by simp
  have "execute_function_call (query k env ui ee) env ui ee ?st1 (choice_message choice) (n + 1) =
        execute_function (query k env ui ee) env ui ee ?st1 (choice_message choice) (n + 1) fn"
    using a execute_function_call_found[OF assms(4) assms(1), of fn] by simp
  also have "\<dots> =
      (case query k env ui ee
              \<lparr>st_trace = st_trace ?st1 @
                 [FunctionExecuted function_executor (setting_function fn) arguments],
               st_messages = st_messages ?st1 @
                 [\<lparr>msg_role = ''function'', msg_content = Some (py_str env result),
                   msg_name = Some (fc_name fc), msg_function_call = None\<rparr>]\<rparr> (n + 1) of
         None \<Rightarrow> None
       | Some (st3, Inl e) \<Rightarrow> Some (st3, Inl e)
       | Some (st3, Inr (services_called, result)) \<Rightarrow> Some (st3, Inr result))"
    using execute_function_executed[OF assms(4) conjunct1[OF conjunct2[OF a]]
        conjunct1[OF conjunct2[OF conjunct2[OF a]]] x, of "query k env ui ee" "n + 1"]
    by simp
  finally show "query (Suc k) env ui ee st n =
              (case query k env ui ee
                      \<lparr>st_trace = st_trace st @
                         [ChatRequest ?req,
                          FunctionExecuted function_executor (setting_function fn) arguments],
                       st_messages = st_messages st @
                         [\<lparr>msg_role = ''function'', msg_content = Some (py_str env result),
                           msg_name = Some (fc_name fc), msg_function_call = None\<rparr>]\<rparr>
                      (n + 1) of
                 None \<Rightarrow> None
               | Some (st3, Inl e) \<Rightarrow> Some (st3, Inl e)
               | Some (st3, Inr (services_called, message)) \<Rightarrow>
                   Some (process_message env st3 message))"
    using query_function_call[OF assms(1,2,3), of k ui ee]
    by (simp split: option.splits sum.splits prod.splits)
next
  assume "find (\<lambda>s. spec_name (setting_spec s) = fc_name fc) settings = None"
  from execute_function_call_not_found[OF assms(4) assms(1) this]
  show "query (Suc k) env ui ee st n =
              Some (st\<lparr>st_trace := st_trace st @
                       [ChatRequest (build_request env settings (st_messages st) n)]\<rparr>,
                    Inl (FunctionNotFound (fc_name fc)))"
    using query_function_call[OF assms(1,2,3), of k ui ee] by simp
next
  fix fn function_executor
  let ?req = "build_request env settings (st_messages st) n"
  let ?st1 = "st\<lparr>st_trace := st_trace st @ [ChatRequest ?req]\<rparr>"
  assume a: "find (\<lambda>s. spec_name (setting_spec s) = fc_name fc) settings = Some fn \<and>
            get_function_executor env (fn_type (setting_function fn)) = Inr function_executor \<and>
            json_loads env (fc_arguments fc) = None"
  have "execute_function_call (query k env ui ee) env ui ee ?st1 (choice_message choice) (n + 1) =
        execute_function (query k env ui ee) env ui ee ?st1 (choice_message choice) (n + 1) fn"
    using a execute_function_call_found[OF assms(4) assms(1), of fn] by simp
  also have "\<dots> = Some (?st1, Inl (ParseArgumentsFailed (fc_arguments fc)))"
    using execute_function_parse_failed[OF assms(4) conjunct1[OF conjunct2[OF a]]
        conjunct2[OF conjunct2[OF a]]] by simp
  finally show "query (Suc k) env ui ee st n =
                  Some (?st1, Inl (ParseArgumentsFailed (fc_arguments fc)))"
    using query_function_call[OF assms(1,2,3), of k ui ee] by simp
next
  fix fn function_executor arguments e
  let ?req = "build_request env settings (st_messages st) n"
  let ?st1 = "st\<lparr>st_trace := st_trace st @ [ChatRequest ?req]\<rparr>"
  assume a: "find (\<lambda>s. spec_name (setting_spec s) = fc_name fc) settings = Some fn \<and>
            get_function_executor env (fn_type (setting_function fn)) = Inr function_executor \<and>
            json_loads env (fc_arguments fc) = Some arguments \<and>
            executor_execute env (st_trace st @ [ChatRequest ?req])
              function_executor (setting_function fn) arguments ui ee = Inl e"
  then have x: "executor_execute env (st_trace ?st1) function_executor (setting_function fn)
                  arguments ui ee = Inl e" by simp
  have "execute_function_call (query k env ui ee) env ui ee ?st1 (choice_message choice) (n + 1) =
        execute_function (query k env ui ee) env ui ee ?st1 (choice_message choice) (n + 1) fn"
    using a execute_function_call_found[OF assms(4) assms(1), of fn] by simp
  also have "\<dots> =
      Some (?st1\<lparr>st_trace := st_trace ?st1 @
               [FunctionExecuted function_executor (setting_function fn) arguments]\<rparr>, Inl e)"
    using execute_function_raised[OF assms(4) conjunct1[OF conjunct2[OF a]]
        conjunct1[OF conjunct2[OF conjunct2[OF a]]] x] by simp
  finally show "query (Suc k) env ui ee st n =
              Some (st\<lparr>st_trace := st_trace st @
                       [ChatRequest ?req,
                        FunctionExecuted function_executor (setting_function fn) arguments]\<rparr>,
                    Inl e)"
    using query_function_call[OF assms(1,2,3), of k ui ee] by simp
next
  fix fn e
  let ?req = "build_request env settings (st_messages st) n"
  let ?st1 = "st\<lparr>st_trace := st_trace st @ [ChatRequest ?req]\<rparr>"
  assume a: "find (\<lambda>s. spec_name (setting_spec s) = fc_name fc) settings = Some fn \<and>
            get_function_executor env (fn_type (setting_function fn)) = Inl e"
  have "execute_function_call (query k env ui ee) env ui ee ?st1 (choice_message choice) (n + 1) =
        execute_function (query k env ui ee) env ui ee ?st1 (choice_message choice) (n + 1) fn"
    using a execute_function_call_found[OF assms(4) assms(1), of fn] by simp
  also have "\<dots> = Some (?st1, Inl e)"
    using execute_function_no_executor[OF conjunct2[OF a]] by simp
  finally show "query (Suc k) env ui ee st n = Some (?st1, Inl e)"
    using query_function_call[OF assms(1,2,3), of k ui ee] by simp
qed

text \<open>
  The theorem at an endpoint that asks for the configured function \<^verbatim>\<open>get_state\<close> and then
  answers, at one that asks for \<^verbatim>\<open>get_time\<close>, which is not configured, at one that asks
  for \<^verbatim>\<open>get_state\<close> with arguments cut off before the value, and at a host whose executor
  raises.
\<close>

theorem function_call_dispatched_witness:
  "query 2 (example_env 1 False (llm_calls_once ''get_state'' ''{}'' ''It is on.''))
     (example_input None) [] \<lparr>st_trace = [], st_messages = []\<rparr> 0 =
   Some (\<lparr>st_trace =
            [ChatRequest \<lparr>req_messages = [],
               req_functions = Some [\<lparr>spec_name = ''get_state'', spec_body = JNull\<rparr>],
               req_function_call = Some ''auto''\<rparr>,
             FunctionExecuted ''native'' \<lparr>fn_type = ''native'', fn_body = JNull\<rparr> (JObject []),
             ChatRequest \<lparr>req_messages =
                 [\<lparr>msg_role = ''function'', msg_content = Some ''on'',
                   msg_name = Some ''get_state'', msg_function_call = None\<rparr>],
               req_functions = Some [\<lparr>spec_name = ''get_state'', spec_body = JNull\<rparr>],
               req_function_call = Some ''none''\<rparr>],
          st_messages =
            [\<lparr>msg_role = ''function'', msg_content = Some ''on'',
              msg_name = Some ''get_state'', msg_function_call = None\<rparr>]\<rparr>,
         Inr ([], assistant ''It is on.'')) \<and>
   query 1 (example_env 1 False (llm_calls_once ''get_time'' ''{}'' ''It is noon.''))
     (example_input None) [] \<lparr>st_trace = [], st_messages = []\<rparr> 0 =
   Some (\<lparr>st_trace =
            [ChatRequest \<lparr>req_messages = [],
               req_functions = Some [\<lparr>spec_name = ''get_state'', spec_body = JNull\<rparr>],
               req_function_call = Some ''auto''\<rparr>],
          st_messages = []\<rparr>,
         Inl (FunctionNotFound ''get_time'')) \<and>
   query 1 (example_env 1 False (llm_calls_once ''get_state'' ''{\"entity_id\": '' ''Done.''))
     (example_input None) [] \<lparr>st_trace = [], st_messages = []\<rparr> 0 =
   Some (\<lparr>st_trace =
            [ChatRequest \<lparr>req_messages = [],
               req_functions = Some [\<lparr>spec_name = ''get_state'', spec_body = JNull\<rparr>],
               req_function_call = Some ''auto''\<rparr>],
          st_messages = []\<rparr>,
         Inl (ParseArgumentsFailed ''{\"entity_id\": '')) \<and>
   query 1 ((example_env 1 False (llm_calls_once ''get_state'' ''{}'' ''It is on.''))
              \<lparr>executor_execute :=
                 (\<lambda>tr function_executor f arguments ui ee. Inl (HomeAssistantError ''unavailable''))\<rparr>)
     (example_input None) [] \<lparr>st_trace = [], st_messages = []\<rparr> 0 =
   Some (\<lparr>st_trace =
            [ChatRequest \<lparr>req_messages = [],
               req_functions = Some [\<lparr>spec_name = ''get_state'', spec_body = JNull\<rparr>],
               req_function_call = Some ''auto''\<rparr>,
             FunctionExecuted ''native'' \<lparr>fn_type = ''native'', fn_body = JNull\<rparr> (JObject [])],
          st_messages = []\<rparr>,
         Inl (HomeAssistantError ''unavailable''))"
proof -
  let ?env = "example_env 1 False (llm_calls_once ''get_state'' ''{}'' ''It is on.'')"
  let ?env' = "example_env 1 False (llm_calls_once ''get_time'' ''{}'' ''It is noon.'')"
  let ?st = "\<lparr>st_trace = [], st_messages = []\<rparr>"
  let ?ui = "example_input None"
  have 1: "get_functions ?env = Inr [example_setting]" by (rule example_get_functions)
  have 2: "chat_completions_create ?env (st_trace ?st)
             (build_request ?env [example_setting] (st_messages ?st) 0) =
           Inr (\<lparr>finish_reason = ''function_call'', choice_message = calling ''get_state'' ''{}''\<rparr> # [])"
    by (simp add: example_env_def llm_calls_once_def build_request_def)
  have 3: "finish_reason \<lparr>finish_reason = ''function_call'', choice_message = calling ''get_state'' ''{}''\<rparr> =
             ''function_call''" by simp
  have 4: "msg_function_call (choice_message
             \<lparr>finish_reason = ''function_call'', choice_message = calling ''get_state'' ''{}''\<rparr>) =
           Some \<lparr>fc_name = ''get_state'', fc_arguments = ''{}''\<rparr>"
    by (simp add: calling_def)
  have a: "query 2 ?env ?ui [] ?st 0 =
             (case query 1 ?env ?ui []
                      \<lparr>st_trace = st_trace ?st @
                         [ChatRequest (build_request ?env [example_setting] (st_messages ?st) 0),
                          FunctionExecuted ''native'' (setting_function example_setting) (JObject [])],
                       st_messages = st_messages ?st @
                         [\<lparr>msg_role = ''function'', msg_content = Some (py_str ?env (JString ''on'')),
                           msg_name = Some (fc_name \<lparr>fc_name = ''get_state'', fc_arguments = ''{}''\<rparr>),
                           msg_function_call = None\<rparr>]\<rparr>
                      (0 + 1) of
                 None \<Rightarrow> None
               | Some (st3, Inl e) \<Rightarrow> Some (st3, Inl e)
               | Some (st3, Inr (services_called, message)) \<Rightarrow>
                   Some (process_message ?env st3 message))"
    using function_call_dispatched[OF 1 2 3 4, of ?ui "[]" 1]
    by (simp add: example_env_def example_setting_def json_loads_ex_def directive_light_def
        directive_script_def directive_restart_def directive_no_service_def
        directive_two_lines_def numeral_2_eq_2)
  have g1: "get_functions ?env' = Inr [example_setting]" by (rule example_get_functions)
  have g2: "chat_completions_create ?env' (st_trace ?st)
             (build_request ?env' [example_setting] (st_messages ?st) 0) =
           Inr (\<lparr>finish_reason = ''function_call'', choice_message = calling ''get_time'' ''{}''\<rparr> # [])"
    by (simp add: example_env_def llm_calls_once_def build_request_def)
  have g3: "finish_reason \<lparr>finish_reason = ''function_call'', choice_message = calling ''get_time'' ''{}''\<rparr> =
             ''function_call''" by simp
  have g4: "msg_function_call (choice_message
             \<lparr>finish_reason = ''function_call'', choice_message = calling ''get_time'' ''{}''\<rparr>) =
           Some \<lparr>fc_name = ''get_time'', fc_arguments = ''{}''\<rparr>"
    by (simp add: calling_def)
  have b: "query 1 ?env' ?ui [] ?st 0 =
             Some (?st\<lparr>st_trace := st_trace ?st @
                       [ChatRequest (build_request ?env' [example_setting] (st_messages ?st) 0)]\<rparr>,
                    Inl (FunctionNotFound ''get_time''))"
    using function_call_dispatched[OF g1 g2 g3 g4, of ?ui "[]" 0]
    by (simp add: example_setting_def)
  let ?envp = "example_env 1 False (llm_calls_once ''get_state'' ''{\"entity_id\": '' ''Done.'')"
  let ?envx = "(example_env 1 False (llm_calls_once ''get_state'' ''{}'' ''It is on.''))
              \<lparr>executor_execute :=
                 (\<lambda>tr function_executor f arguments ui ee. Inl (HomeAssistantError ''unavailable''))\<rparr>"
  have p1: "get_functions ?envp = Inr [example_setting]" by (rule example_get_functions)
  have p2: "chat_completions_create ?envp (st_trace ?st)
             (build_request ?envp [example_setting] (st_messages ?st) 0) =
           Inr (\<lparr>finish_reason = ''function_call'',
                  choice_message = calling ''get_state'' ''{\"entity_id\": ''\<rparr> # [])"
    by (simp add: example_env_def llm_calls_once_def build_request_def)
  have p3: "finish_reason \<lparr>finish_reason = ''function_call'',
                  choice_message = calling ''get_state'' ''{\"entity_id\": ''\<rparr> = ''function_call''"
    by simp
  have p4: "msg_function_call (choice_message \<lparr>finish_reason = ''function_call'',
                  choice_message = calling ''get_state'' ''{\"entity_id\": ''\<rparr>) =
            Some \<lparr>fc_name = ''get_state'', fc_arguments = ''{\"entity_id\": ''\<rparr>"
    by (simp add: calling_def)
  have c: "query 1 ?envp ?ui [] ?st 0 =
             Some (?st\<lparr>st_trace := st_trace ?st @
                       [ChatRequest (build_request ?envp [example_setting] (st_messages ?st) 0)]\<rparr>,
                   Inl (ParseArgumentsFailed
                          (fc_arguments \<lparr>fc_name = ''get_state'', fc_arguments = ''{\"entity_id\": ''\<rparr>)))"
    using function_call_dispatched[OF p1 p2 p3 p4, of ?ui "[]" 0]
    by (simp add: example_env_def example_setting_def json_loads_ex_def directive_light_def
        directive_script_def directive_restart_def directive_no_service_def
        directive_two_lines_def)
  have x1: "get_functions ?envx = Inr [example_setting]"
    by (simp add: get_functions_def example_env_def example_setting_def)
  have x2: "chat_completions_create ?envx (st_trace ?st)
             (build_request ?envx [example_setting] (st_messages ?st) 0) =
           Inr (\<lparr>finish_reason = ''function_call'', choice_message = calling ''get_state'' ''{}''\<rparr> # [])"
    by (simp add: example_env_def llm_calls_once_def build_request_def)
  have x3: "finish_reason \<lparr>finish_reason = ''function_call'', choice_message = calling ''get_state'' ''{}''\<rparr> =
             ''function_call''" by simp
  have x4: "msg_function_call (choice_message
             \<lparr>finish_reason = ''function_call'', choice_message = calling ''get_state'' ''{}''\<rparr>) =
           Some \<lparr>fc_name = ''get_state'', fc_arguments = ''{}''\<rparr>"
    by (simp add: calling_def)
  have d: "query 1 ?envx ?ui [] ?st 0 =
             Some (?st\<lparr>st_trace := st_trace ?st @
                       [ChatRequest (build_request ?envx [example_setting] (st_messages ?st) 0),
                        FunctionExecuted ''native'' (setting_function example_setting) (JObject [])]\<rparr>,
                   Inl (HomeAssistantError ''unavailable''))"
    using function_call_dispatched[OF x1 x2 x3 x4, of ?ui "[]" 0]
    by (simp add: example_env_def example_setting_def json_loads_ex_def directive_light_def
        directive_script_def directive_restart_def directive_no_service_def
        directive_two_lines_def)
  show ?thesis
    unfolding a b c d
    by (simp add: example_defs get_functions_def query_body_def build_request_def py_index_def
        process_message_def clean_content_def remove_json_objects_def str_strip_def
        py_isspace_def Let_def match_json_pattern_def extract_json_objects_def)
qed

text \<open>
  Claim C6 as it is written has every answer that calls a configured function dispatched,
  its result appended and \<^verbatim>\<open>query\<close> called again. An answer that calls the configured
  function \<^verbatim>\<open>get_state\<close> with arguments that are not valid JSON ends \<^verbatim>\<open>query\<close> with
  \<^verbatim>\<open>ParseArgumentsFailed\<close> after the one request: no executor has run and no message has
  been appended.
\<close>

theorem configured_function_not_dispatched_counterexample:
  "find (\<lambda>s. spec_name (setting_spec s) = ''get_state'') [example_setting] = Some example_setting \<and>
   get_functions (example_env 1 False (llm_calls_once ''get_state'' ''{\"entity_id\": '' ''Done.'')) =
     Inr [example_setting] \<and>
   query 2 (example_env 1 False (llm_calls_once ''get_state'' ''{\"entity_id\": '' ''Done.''))
     (example_input None) [] \<lparr>st_trace = [], st_messages = []\<rparr> 0 =
   Some (\<lparr>st_trace =
            [ChatRequest \<lparr>req_messages = [],
               req_functions = Some [\<lparr>spec_name = ''get_state'', spec_body = JNull\<rparr>],
               req_function_call = Some ''auto''\<rparr>],
          st_messages = []\<rparr>,
         Inl (ParseArgumentsFailed ''{\"entity_id\": ''))"
  by (simp add: example_env_def json_loads_ex_def directive_light_def directive_script_def
      directive_restart_def directive_no_service_def directive_two_lines_def example_setting_def
      calling_def llm_calls_once_def example_input_def
      get_functions_def query_body_def build_request_def py_index_def
      execute_function_call_def execute_function_def Let_def numeral_2_eq_2)

section \<open>Malformed arguments of a function call\<close>



section \<open>The limit of function calls\<close>

lemma executions_service_calls:
  "list_all is_ServiceCalled calls \<Longrightarrow> executions (tr @ calls) = executions tr"
proof (induction calls)
  case Nil
  then show ?case by simp
next
  case (Cons ev calls)
  then show ?case by (cases ev) (simp_all add: executions_def)
qed

lemma executions_process_message:
  "executions (st_trace (fst (process_message env st message))) = executions (st_trace st)"
  using process_message_events[of env st message] executions_service_calls by auto

lemma executions_snoc_request [simp]: "executions (tr @ [ChatRequest req]) = executions tr"
  by (simp add: executions_def)

lemma executions_snoc_executed [simp]:
  "executions (tr @ [FunctionExecuted x f a]) = Suc (executions tr)"
  by (simp add: executions_def)

lemma execute_function_bounded:
  assumes "\<forall>st2. \<exists>st' r. q st2 m = Some (st', r) \<and>
             executions (st_trace st') \<le> executions (st_trace st2) + B"
  shows "\<exists>st' r. execute_function q env ui ee st message m f = Some (st', r) \<and>
           executions (st_trace st') \<le> Suc (executions (st_trace st) + B)"
proof (cases "get_function_executor env (fn_type (setting_function f))")
  case (Inl e)
  then show ?thesis by (simp add: execute_function_def)
next
  case (Inr function_executor)
  show ?thesis
  proof (cases "msg_function_call message")
    case None
    with Inr show ?thesis by (simp add: execute_function_def)
  next
    case (Some fc)
    show ?thesis
    proof (cases "json_loads env (fc_arguments fc)")
      case None
      with Inr Some show ?thesis by (simp add: execute_function_def)
    next
      case arguments: (Some arguments)
      show ?thesis
      proof (cases "executor_execute env (st_trace st) function_executor (setting_function f)
                      arguments ui ee")
        case (Inl e)
        with Inr Some arguments show ?thesis by (simp add: execute_function_def Let_def)
      next
        case result: (Inr result)
        let ?st2 = "\<lparr>st_trace = st_trace st @
                     [FunctionExecuted function_executor (setting_function f) arguments],
                   st_messages = st_messages st @
                     [\<lparr>msg_role = ''function'', msg_content = Some (py_str env result),
                       msg_name = Some (fc_name fc), msg_function_call = None\<rparr>]\<rparr>"
        from assms obtain st' r where
          q: "q ?st2 m = Some (st', r)"
             "executions (st_trace st') \<le> executions (st_trace ?st2) + B" by blast
        from execute_function_executed[OF Some Inr arguments result, of q m] q(1)
        have "\<exists>r'. execute_function q env ui ee st message m f = Some (st', r')"
          by (cases r) (auto split: prod.splits)
        with q(2) show ?thesis by auto
      qed
    qed
  qed
qed

lemma execute_function_call_bounded:
  assumes "\<forall>st2. \<exists>st' r. q st2 m = Some (st', r) \<and>
             executions (st_trace st') \<le> executions (st_trace st2) + B"
  shows "\<exists>st' r. execute_function_call q env ui ee st message m = Some (st', r) \<and>
           executions (st_trace st') \<le> Suc (executions (st_trace st) + B)"
proof (cases "msg_function_call message")
  case None
  then show ?thesis by (simp add: execute_function_call_def)
next
  case (Some fc)
  show ?thesis
  proof (cases "get_functions env")
    case (Inl e)
    with Some show ?thesis by (simp add: execute_function_call_def)
  next
    case (Inr settings)
    show ?thesis
    proof (cases "find (\<lambda>s. spec_name (setting_spec s) = fc_name fc) settings")
      case None
      with Some Inr show ?thesis by (simp add: execute_function_call_def)
    next
      case found: (Some f)
      from execute_function_call_found[OF Some Inr found]
      show ?thesis
        using execute_function_bounded[where q=q and m=m and B=B, OF assms, of env ui ee st message f]
        by simp
    qed
  qed
qed

lemma find_Some_not_Nil: "find P xs = Some x \<Longrightarrow> xs \<noteq> []"
  by (cases xs) auto

lemma build_request_at_limit:
  "settings \<noteq> [] \<Longrightarrow> int n = opt_max_function_calls env \<Longrightarrow>
   req_function_call (build_request env settings messages n) = Some ''none''"
  by (simp add: build_request_def)

lemma query_returns_bounded:
  assumes "honours_none env"
    and "int n \<le> opt_max_function_calls env"
    and "nat (opt_max_function_calls env) - n < fuel"
  shows "\<exists>st' r. query fuel env ui ee st n = Some (st', r) \<and>
           executions (st_trace st') \<le>
             executions (st_trace st) + (nat (opt_max_function_calls env) - n)"
  using assms(2,3)
proof (induction fuel arbitrary: st n)
  case 0
  then show ?case by simp
next
  case (Suc k)
  let ?N = "nat (opt_max_function_calls env)"
  show ?case
  proof (cases "get_functions env")
    case (Inl e)
    then show ?thesis by (simp add: query_body_def)
  next
    case (Inr settings)
    let ?req = "build_request env settings (st_messages st) n"
    let ?st1 = "st\<lparr>st_trace := st_trace st @ [ChatRequest ?req]\<rparr>"
    show ?thesis
    proof (cases "chat_completions_create env (st_trace st) ?req")
      case (Inl e)
      with Inr show ?thesis by (simp add: query_body_def Let_def)
    next
      case choices: (Inr choices)
      show ?thesis
      proof (cases choices)
        case Nil
        with Inr choices show ?thesis by (simp add: query_body_def Let_def py_index_def)
      next
        case (Cons choice rest)
        show ?thesis
        proof (cases "finish_reason choice = ''function_call''")
          case False
          from query_plain_answer[OF Inr choices[unfolded Cons] False, of k ui ee]
          have "query (Suc k) env ui ee st n =
                  Some (fst (process_message env ?st1 (choice_message choice)),
                        snd (process_message env ?st1 (choice_message choice)))" by simp
          moreover have "executions (st_trace (fst (process_message env ?st1 (choice_message choice)))) =
                  executions (st_trace st)"
            by (simp add: executions_process_message)
          ultimately show ?thesis by (metis le_add1)
        next
          case True
          note q = query_function_call[OF Inr choices[unfolded Cons] True, of k ui ee]
          show ?thesis
          proof (cases "n < ?N")
            case less: True
            then have "int (n + 1) \<le> opt_max_function_calls env" by linarith
            moreover from less Suc.prems have "?N - (n + 1) < k" by linarith
            ultimately have ih: "\<forall>st2. \<exists>st' r. query k env ui ee st2 (n + 1) = Some (st', r) \<and>
                executions (st_trace st') \<le> executions (st_trace st2) + (?N - (n + 1))"
              using Suc.IH by blast
            from execute_function_call_bounded[where q="query k env ui ee" and m="n + 1"
                and B="?N - (n + 1)", OF ih, of env ui ee ?st1 "choice_message choice"]
            obtain st2 r2 where e:
              "execute_function_call (query k env ui ee) env ui ee ?st1 (choice_message choice) (n + 1) =
                 Some (st2, r2)"
              "executions (st_trace st2) \<le> Suc (executions (st_trace ?st1) + (?N - (n + 1)))"
              by blast
            from e(2) less have b: "executions (st_trace st2) \<le> executions (st_trace st) + (?N - n)"
              by simp
            show ?thesis
            proof (cases r2)
              case (Inl err)
              with q e(1) b show ?thesis by simp
            next
              case (Inr message)
              with q e(1) have "query (Suc k) env ui ee st n =
                  Some (fst (process_message env st2 message), snd (process_message env st2 message))"
                by simp
              moreover have "executions (st_trace (fst (process_message env st2 message))) =
                  executions (st_trace st2)" by (simp add: executions_process_message)
              ultimately show ?thesis using b by (metis)
            qed
          next
            case at_limit: False
            with Suc.prems have lim: "int n = opt_max_function_calls env" by linarith
            have "settings = []"
            proof (rule ccontr)
              assume "settings \<noteq> []"
              from build_request_at_limit[OF this lim, of "st_messages st"] assms(1)
                choices[unfolded Cons] True
              show False by (auto simp: honours_none_def)
            qed
            then have "execute_function_call (query k env ui ee) env ui ee ?st1
                         (choice_message choice) (n + 1) =
                       Some (?st1, Inl (case msg_function_call (choice_message choice) of
                                          None \<Rightarrow> AttributeError
                                        | Some fc \<Rightarrow> FunctionNotFound (fc_name fc)))"
              using Inr by (simp add: execute_function_call_def split: option.splits)
            with q show ?thesis by simp
          qed
        qed
      qed
    qed
  qed
qed

text \<open>
  Claim C2, as the code has it. Let the limit \<open>N\<close> of function calls be at least the
  request counter \<open>n\<close> of a call of \<^verbatim>\<open>query\<close>, and let the endpoint honour
  \<^verbatim>\<open>function_call="none"\<close>: asked with it, it does not answer with a function call. Then the
  call of \<^verbatim>\<open>query\<close> returns (\<open>N - n + 1\<close> nested calls of \<^verbatim>\<open>query\<close> are enough) and at most
  \<open>N - n\<close> functions are executed on the way. When the counter is at the limit and
  functions are configured, the request is sent with \<^verbatim>\<open>function_call\<close> set to \<^verbatim>\<open>"none"\<close>.
\<close>

theorem function_calls_bounded:
  assumes "honours_none env"
    and "int n \<le> opt_max_function_calls env"
    and "nat (opt_max_function_calls env) - n < fuel"
  shows "(\<exists>st' r. query fuel env ui ee st n = Some (st', r) \<and>
            executions (st_trace st') \<le>
              executions (st_trace st) + (nat (opt_max_function_calls env) - n)) \<and>
         (\<forall>settings messages m.
            settings \<noteq> [] \<and> int m = opt_max_function_calls env \<longrightarrow>
            req_function_call (build_request env settings messages m) = Some ''none'')"
  using query_returns_bounded[OF assms] build_request_at_limit by blast

text \<open>
  The theorem at the limit 1 and an endpoint that asks for a function whenever the
  request allows one: the turn returns after two requests and one execution.
\<close>

theorem function_calls_bounded_witness:
  "\<exists>st' r.
     query 2 (example_env 1 False (llm_calls_when_allowed ''get_state'' ''{}'' ''It is on.''))
       (example_input None) [] \<lparr>st_trace = [], st_messages = []\<rparr> 0 = Some (st', r) \<and>
     executions (st_trace st') \<le> 1"
proof -
  let ?env = "example_env 1 False (llm_calls_when_allowed ''get_state'' ''{}'' ''It is on.'')"
  have 1: "honours_none ?env"
    by (auto simp: honours_none_def example_env_def llm_calls_when_allowed_def)
  have 2: "int 0 \<le> opt_max_function_calls ?env" by (simp add: example_env_def)
  have 3: "nat (opt_max_function_calls ?env) - 0 < 2" by (simp add: example_env_def)
  from function_calls_bounded[OF 1 2 3, of "example_input None" "[]" "\<lparr>st_trace = [], st_messages = []\<rparr>"]
  show ?thesis by (simp add: example_env_def executions_def)
qed

text \<open>
  Claim C2 as it is written holds for every turn. The code sends \<^verbatim>\<open>"none"\<close> at the limit
  but does not look at the limit when the answer comes: with the limit 0, an endpoint
  that answers the first request, sent with \<^verbatim>\<open>"none"\<close>, with a function call has the
  function executed.
\<close>

theorem function_executed_at_limit_counterexample:
  "opt_max_function_calls (example_env 0 False (llm_calls_once ''get_state'' ''{}'' ''It is on.'')) = 0 \<and>
   (case query 2 (example_env 0 False (llm_calls_once ''get_state'' ''{}'' ''It is on.''))
           (example_input None) [] \<lparr>st_trace = [], st_messages = []\<rparr> 0 of
      None \<Rightarrow> False
    | Some (st', r) \<Rightarrow>
        executions (st_trace st') = 1 \<and>
        (case st_trace st' of
           ChatRequest req # ev # evs \<Rightarrow>
             req_function_call req = Some ''none'' \<and> is_FunctionExecuted ev
         | _ \<Rightarrow> False))"
  by (simp add: example_env_def json_loads_ex_def directive_light_def directive_script_def
      directive_restart_def directive_no_service_def directive_two_lines_def example_setting_def
      assistant_def calling_def llm_calls_once_def example_input_def
      get_functions_def query_body_def build_request_def py_index_def
      execute_function_call_def execute_function_def executions_def
      process_message_def clean_content_def remove_json_objects_def str_strip_def
      py_isspace_def Let_def match_json_pattern_def extract_json_objects_def numeral_2_eq_2)

section \<open>The suffix "Service executed successfully."\<close>

lemma process_message_services:
  assumes "process_message env st message = (st', Inr (sc, m))"
  shows "\<exists>calls. st_trace st' = st_trace st @ calls \<and> list_all is_ServiceCalled calls \<and>
                 length sc = length calls"
proof -
  from assms obtain c where c: "msg_content message = Some c"
    by (cases "msg_content message") (auto simp: process_message_def)
  let ?c1 = "str_replace c [CHR 0x5C] []"
  show ?thesis
  proof (cases "str_contains ''$ActionRequired'' ?c1")
    case False
    with assms c show ?thesis by (auto simp: process_message_def)
  next
    case True
    obtain tr r where f: "for_segments env (st_trace st) (extract_json_objects env ?c1) [] False = (tr, r)"
      by (cases "for_segments env (st_trace st) (extract_json_objects env ?c1) [] False")
    show ?thesis
    proof (cases r)
      case (Inl e)
      with assms c True f show ?thesis by (simp add: process_message_def)
    next
      case (Inr x)
      obtain sc' f' where x: "x = (sc', f')" by (cases x)
      from for_segments_returned[OF f[unfolded Inr x]] obtain calls where
        "tr = st_trace st @ calls" "list_all is_ServiceCalled calls" "length sc' = length calls"
        by auto
      moreover from assms c True f Inr x have "st' = st\<lparr>st_trace := tr\<rparr>" "sc = sc'"
        by (auto simp: process_message_def Let_def)
      ultimately show ?thesis by simp
    qed
  qed
qed

lemma process_message_clean_again:
  assumes "msg_content message = Some (clean_content c)"
  shows "process_message env st message =
           (st, Inr ([], message\<lparr>msg_content :=
                          Some (clean_content (str_replace (clean_content c) [CHR 0x5C] []))\<rparr>))"
proof -
  have "\<not> has_match (str_replace (clean_content c) [CHR 0x5C] [])"
    using has_match_str_delete[of "[CHR 0x5C]" "clean_content c"] no_match_clean_content[of c]
    by auto
  with assms show ?thesis by (rule process_message_no_match)
qed

lemma query_returned_clean:
  assumes "query fuel env ui ee st n = Some (st', Inr (sc, m))"
  shows "\<exists>c. msg_content m = Some (clean_content c)"
proof (cases fuel)
  case 0
  with assms show ?thesis by simp
next
  case (Suc k)
  with assms have "\<exists>st0 m0. process_message env st0 m0 = (st', Inr (sc, m))"
    by (auto simp: query_body_def Let_def split: sum.splits option.splits if_splits prod.splits)
  then obtain st0 m0 where "process_message env st0 m0 = (st', Inr (sc, m))" by blast
  from process_message_returned[OF this] show ?thesis by auto
qed

lemma execute_function_returned:
  assumes "execute_function q env ui ee st message n f = Some (st', Inr m)"
  shows "\<exists>st2 sc. q st2 n = Some (st', Inr (sc, m))"
  using assms
  by (auto simp: execute_function_def Let_def split: sum.splits option.splits prod.splits)

lemma execute_function_call_returned:
  assumes "execute_function_call q env ui ee st message n = Some (st', Inr m)"
  shows "\<exists>st2 sc. q st2 n = Some (st', Inr (sc, m))"
  using assms execute_function_returned
  by (auto simp: execute_function_call_def split: sum.splits option.splits)

lemma query_first_answer:
  assumes "query (Suc k) env ui ee st n = Some (st', Inr (sc, m))"
  shows "\<exists>settings choice choices.
           get_functions env = Inr settings \<and>
           chat_completions_create env (st_trace st) (build_request env settings (st_messages st) n) =
             Inr (choice # choices)"
proof -
  from assms obtain settings where s: "get_functions env = Inr settings"
    by (cases "get_functions env") (auto simp: query_body_def)
  with assms obtain cs where c: "chat_completions_create env (st_trace st)
      (build_request env settings (st_messages st) n) = Inr cs"
    by (cases "chat_completions_create env (st_trace st) (build_request env settings (st_messages st) n)")
       (auto simp: query_body_def Let_def)
  with assms s have "cs \<noteq> []" by (auto simp: query_body_def Let_def py_index_def)
  with s c show ?thesis by (cases cs) auto
qed

text \<open>
  Claim C9, as the code has it. Let the first call of \<^verbatim>\<open>query\<close> in a turn return a message
  with the list \<^verbatim>\<open>services_called\<close>. Then the turn speaks the content of that message, with
  the suffix appended if and only if \<^verbatim>\<open>services_called\<close> is not empty. When the first answer
  of the model was a function call, the list is empty whatever the recursive calls of
  \<^verbatim>\<open>query\<close> executed: \<^verbatim>\<open>execute_function\<close> drops their lists, and the message they return has
  no directive left to extract. Otherwise the list has one entry for each host call that
  the loop over the directives of the first answer made, and so is not empty exactly when
  a directive of that answer was executed.
\<close>

theorem suffix_only_for_top_level_services:
  assumes "query (Suc k) env ui ee \<lparr>st_trace = tr, st_messages = ms0 @ [user_message env ui]\<rparr> 0 =
             Some (st', Inr (services_called, response))"
  shows "\<exists>c settings choice choices calls.
           msg_content response = Some c \<and>
           (\<forall>hist cid aliased. \<exists>hist'.
              run_turn (Suc k) env hist tr ui ee cid aliased ms0 =
                Some ((hist', st_trace st'),
                      Inr \<lparr>cr_response =
                             Speech (Some (if services_called = [] then c
                                           else c @ service_executed_suffix)),
                           cr_conversation_id = cid\<rparr>)) \<and>
           get_functions env = Inr settings \<and>
           chat_completions_create env tr
             (build_request env settings (ms0 @ [user_message env ui]) 0) = Inr (choice # choices) \<and>
           (if finish_reason choice = ''function_call'' then services_called = []
            else st_trace st' =
                   tr @ ChatRequest (build_request env settings (ms0 @ [user_message env ui]) 0) # calls \<and>
                 list_all is_ServiceCalled calls \<and> length services_called = length calls)"
proof -
  let ?st = "\<lparr>st_trace = tr, st_messages = ms0 @ [user_message env ui]\<rparr>"
  from query_returned_clean[OF assms] obtain c0 where c0: "msg_content response = Some (clean_content c0)"
    by blast
  from query_first_answer[OF assms] obtain settings choice choices where
    s: "get_functions env = Inr settings"
    and a: "chat_completions_create env (st_trace ?st) (build_request env settings (st_messages ?st) 0) =
             Inr (choice # choices)" by blast
  let ?req = "build_request env settings (ms0 @ [user_message env ui]) 0"
  let ?st1 = "?st\<lparr>st_trace := st_trace ?st @ [ChatRequest (build_request env settings (st_messages ?st) 0)]\<rparr>"
  have turn: "\<forall>hist cid aliased. \<exists>hist'.
              run_turn (Suc k) env hist tr ui ee cid aliased ms0 =
                Some ((hist', st_trace st'),
                      Inr \<lparr>cr_response =
                             Speech (Some (if services_called = [] then clean_content c0
                                           else clean_content c0 @ service_executed_suffix)),
                           cr_conversation_id = cid\<rparr>)"
  proof (intro allI)
    fix hist :: history and cid aliased
    show "\<exists>hist'. run_turn (Suc k) env hist tr ui ee cid aliased ms0 =
                Some ((hist', st_trace st'),
                      Inr \<lparr>cr_response =
                             Speech (Some (if services_called = [] then clean_content c0
                                           else clean_content c0 @ service_executed_suffix)),
                           cr_conversation_id = cid\<rparr>)"
      unfolding run_turn_def Let_def assms using c0 by simp
  qed
  have branch: "if finish_reason choice = ''function_call'' then services_called = []
            else \<exists>calls. st_trace st' = tr @ ChatRequest ?req # calls \<and>
                 list_all is_ServiceCalled calls \<and> length services_called = length calls"
  proof (cases "finish_reason choice = ''function_call''")
    case False
    from query_plain_answer[OF s a False, of k ui ee] assms
    have "process_message env ?st1 (choice_message choice) = (st', Inr (services_called, response))"
      by simp
    from process_message_services[OF this] False show ?thesis by auto
  next
    case True
    from query_function_call[OF s a True, of k ui ee] assms
    obtain st2 message where
      e: "execute_function_call (query k env ui ee) env ui ee ?st1 (choice_message choice) (0 + 1) =
            Some (st2, Inr message)"
      and p: "process_message env st2 message = (st', Inr (services_called, response))"
      by (auto split: option.splits sum.splits prod.splits)
    from execute_function_call_returned[OF e] obtain st3 sc3 where
      "query k env ui ee st3 (0 + 1) = Some (st2, Inr (sc3, message))" by blast
    from query_returned_clean[OF this] obtain c1 where "msg_content message = Some (clean_content c1)"
      by blast
    from process_message_clean_again[OF this, of env st2] p have "services_called = []" by simp
    with True show ?thesis by simp
  qed
  show ?thesis
  proof (cases "finish_reason choice = ''function_call''")
    case True
    with branch c0 turn s a show ?thesis
      by (intro exI[of _ "clean_content c0"] exI[of _ settings] exI[of _ choice] exI[of _ choices]
          exI[of _ "[]"]) simp
  next
    case False
    with branch obtain calls where "st_trace st' = tr @ ChatRequest ?req # calls"
      "list_all is_ServiceCalled calls" "length services_called = length calls" by auto
    with False c0 turn s a show ?thesis
      by (intro exI[of _ "clean_content c0"] exI[of _ settings] exI[of _ choice] exI[of _ choices]
          exI[of _ calls]) simp
  qed
qed

text \<open>
  The theorem at a turn whose first answer is a function call and whose second answer
  holds a directive: the service is called during the recursion, and the turn speaks
  without the suffix.
\<close>

theorem suffix_only_for_top_level_services_witness:
  "\<exists>hist' tr'.
     run_turn 2
       (example_env 1 False
          (llm_calls_once ''get_state'' ''{}'' (''$ActionRequired '' @ directive_light @ '' Done.'')))
       Map.empty [] (example_input None) [] None False [] =
     Some ((hist', tr'), Inr \<lparr>cr_response = Speech (Some ''Done.''), cr_conversation_id = None\<rparr>) \<and>
     filter is_ServiceCalled tr' =
       [ServiceCalled ''light'' ''turn_on'' [(''entity_id'', JString ''light.kitchen'')]]"
proof -
  let ?env = "example_env 1 False
          (llm_calls_once ''get_state'' ''{}'' (''$ActionRequired '' @ directive_light @ '' Done.''))"
  let ?ui = "example_input None"
  have "\<exists>st'. query (Suc 1) ?env ?ui [] \<lparr>st_trace = [], st_messages = [] @ [user_message ?env ?ui]\<rparr> 0 =
               Some (st', Inr ([], assistant ''Done.'')) \<and>
             filter is_ServiceCalled (st_trace st') =
               [ServiceCalled ''light'' ''turn_on'' [(''entity_id'', JString ''light.kitchen'')]]"
    by (simp add: example_env_def json_loads_ex_def directive_light_def directive_script_def
      directive_restart_def directive_no_service_def directive_two_lines_def example_setting_def
      assistant_def calling_def llm_calls_once_def example_input_def user_message_def
      get_functions_def query_body_def build_request_def py_index_def
      execute_function_call_def execute_function_def call_service_def
      process_message_def clean_content_def remove_json_objects_def str_strip_def
      py_isspace_def Let_def match_json_pattern_def extract_json_objects_def)
  then obtain st' where
    q: "query (Suc 1) ?env ?ui [] \<lparr>st_trace = [], st_messages = [] @ [user_message ?env ?ui]\<rparr> 0 =
          Some (st', Inr ([], assistant ''Done.''))"
    and t: "filter is_ServiceCalled (st_trace st') =
               [ServiceCalled ''light'' ''turn_on'' [(''entity_id'', JString ''light.kitchen'')]]"
    by blast
  from suffix_only_for_top_level_services[OF q] obtain c where
    "msg_content (assistant ''Done.'') = Some c"
    "\<forall>hist cid aliased. \<exists>hist'.
        run_turn (Suc 1) ?env hist [] ?ui [] cid aliased [] =
          Some ((hist', st_trace st'),
                Inr \<lparr>cr_response = Speech (Some (if [] = ([] :: string list) then c
                                                 else c @ service_executed_suffix)),
                     cr_conversation_id = cid\<rparr>)"
    by blast
  then have "\<exists>hist'. run_turn (Suc 1) ?env Map.empty [] ?ui [] None False [] =
          Some ((hist', st_trace st'),
                Inr \<lparr>cr_response = Speech (Some ''Done.''), cr_conversation_id = None\<rparr>)"
    by (simp add: assistant_def)
  with t show ?thesis by (auto simp: numeral_2_eq_2)
qed

text \<open>
  Claim C9 as it is written has the suffix whenever a directive was extracted from the
  top-level message. The directive \<^verbatim>\<open>{"service": "homeassistant.restart"}\<close> is extracted, but
  skipped for want of data: nothing enters \<^verbatim>\<open>services_called\<close>, and the turn speaks without
  the suffix.
\<close>

theorem extracted_directive_without_suffix_counterexample:
  "extract_json_objects (example_env 1 False (llm_says (''$ActionRequired '' @ directive_restart)))
     (''$ActionRequired '' @ directive_restart) = [directive_restart] \<and>
   (case async_process 1 (example_env 1 False (llm_says (''$ActionRequired '' @ directive_restart)))
           Map.empty [] (example_input None) of
      None \<Rightarrow> False
    | Some ((hist', tr'), r) \<Rightarrow>
        r = Inr \<lparr>cr_response = Speech (Some []),
                 cr_conversation_id = Some ''01HF0000000000000000000000''\<rparr>)"
  by (simp add: example_env_def json_loads_ex_def directive_light_def directive_script_def
      directive_restart_def directive_no_service_def directive_two_lines_def example_setting_def
      assistant_def llm_says_def example_input_def user_message_def
      async_process_def system_prompt_def run_turn_def
      get_functions_def query_body_def build_request_def py_index_def call_service_def
      process_message_def clean_content_def remove_json_objects_def str_strip_def
      py_isspace_def Let_def match_json_pattern_def extract_json_objects_def)

section \<open>History and the option to ignore the conversation id\<close>

text \<open>
  Claim C3 at a failing input. The option to ignore the conversation id is set and the
  id of the turn is a key of the stored history (stored while the option was not set;
  \<^verbatim>\<open>async_process\<close> reads the options at every turn). The branch for a known id then leaves
  \<^verbatim>\<open>messages\<close> empty and generates no prompt, so the request to the model holds the user
  message alone. The sibling branch, for an id that is not stored, does what the claim
  says: system prompt, then user message.
\<close>

theorem ignored_known_conversation_has_no_system_prompt:
  "(case async_process 1 (example_env 1 True (llm_says ''ok'')) stored_conversation []
           (example_input (Some ''01HF0000000000000000000000'')) of
      None \<Rightarrow> False
    | Some ((hist', tr'), r) \<Rightarrow>
        tr' = [ChatRequest
                 \<lparr>req_messages =
                    [\<lparr>msg_role = ''user'', msg_content = Some ''turn on the kitchen light'',
                      msg_name = None, msg_function_call = None\<rparr>],
                  req_functions = Some [\<lparr>spec_name = ''get_state'', spec_body = JNull\<rparr>],
                  req_function_call = Some ''auto''\<rparr>]) \<and>
   (case async_process 1 (example_env 1 True (llm_says ''ok'')) stored_conversation []
           (example_input None) of
      None \<Rightarrow> False
    | Some ((hist', tr'), r) \<Rightarrow>
        tr' = [ChatRequest
                 \<lparr>req_messages =
                    [\<lparr>msg_role = ''system'', msg_content = Some ''You are a smart home.'',
                      msg_name = None, msg_function_call = None\<rparr>,
                     \<lparr>msg_role = ''user'', msg_content = Some ''turn on the kitchen light'',
                      msg_name = None, msg_function_call = None\<rparr>],
                  req_functions = Some [\<lparr>spec_name = ''get_state'', spec_body = JNull\<rparr>],
                  req_function_call = Some ''auto''\<rparr>])"
  by (simp add: example_env_def stored_conversation_def example_setting_def
      assistant_def llm_says_def example_input_def user_message_def
      async_process_def system_prompt_def run_turn_def
      get_functions_def query_body_def build_request_def py_index_def
      process_message_def clean_content_def remove_json_objects_def str_strip_def
      py_isspace_def Let_def match_json_pattern_def extract_json_objects_def)

lemma process_message_messages:
  "process_message env st message = (st', r) \<Longrightarrow> st_messages st' = st_messages st"
  using process_message_events[of env st message] by auto

lemma execute_function_messages:
  assumes "\<And>st2 st' r. q st2 m = Some (st', r) \<Longrightarrow> prefix (st_messages st2) (st_messages st')"
    and "execute_function q env ui ee st message m f = Some (st', r)"
  shows "prefix (st_messages st) (st_messages st')"
proof (cases "get_function_executor env (fn_type (setting_function f))")
  case (Inl e)
  with assms(2) show ?thesis by (simp add: execute_function_def)
next
  case (Inr function_executor)
  show ?thesis
  proof (cases "msg_function_call message")
    case None
    with Inr assms(2) show ?thesis by (simp add: execute_function_def)
  next
    case (Some fc)
    show ?thesis
    proof (cases "json_loads env (fc_arguments fc)")
      case None
      with Inr Some assms(2) show ?thesis by (simp add: execute_function_def)
    next
      case arguments: (Some arguments)
      show ?thesis
      proof (cases "executor_execute env (st_trace st) function_executor (setting_function f)
                      arguments ui ee")
        case (Inl e)
        with Inr Some arguments assms(2) show ?thesis by (auto simp: execute_function_def Let_def)
      next
        case result: (Inr result)
        let ?st2 = "\<lparr>st_trace = st_trace st @
                     [FunctionExecuted function_executor (setting_function f) arguments],
                   st_messages = st_messages st @
                     [\<lparr>msg_role = ''function'', msg_content = Some (py_str env result),
                       msg_name = Some (fc_name fc), msg_function_call = None\<rparr>]\<rparr>"
        from execute_function_executed[OF Some Inr arguments result, of q m] assms(2)
        obtain r2 where "q ?st2 m = Some (st', r2)"
          by (auto split: option.splits sum.splits prod.splits)
        from assms(1)[OF this] show ?thesis by (auto dest: append_prefixD)
      qed
    qed
  qed
qed

lemma execute_function_call_messages:
  assumes "\<And>st2 st' r. q st2 m = Some (st', r) \<Longrightarrow> prefix (st_messages st2) (st_messages st')"
    and "execute_function_call q env ui ee st message m = Some (st', r)"
  shows "prefix (st_messages st) (st_messages st')"
proof (cases "msg_function_call message")
  case None
  with assms(2) show ?thesis by (simp add: execute_function_call_def)
next
  case (Some fc)
  show ?thesis
  proof (cases "get_functions env")
    case (Inl e)
    with Some assms(2) show ?thesis by (simp add: execute_function_call_def)
  next
    case (Inr settings)
    show ?thesis
    proof (cases "find (\<lambda>s. spec_name (setting_spec s) = fc_name fc) settings")
      case None
      with Some Inr assms(2) show ?thesis by (simp add: execute_function_call_def)
    next
      case found: (Some f)
      from execute_function_call_found[OF Some Inr found, of q ui ee st m] assms(2)
      have "execute_function q env ui ee st message m f = Some (st', r)" by simp
      from execute_function_messages[of q m, OF assms(1) this] show ?thesis by simp
    qed
  qed
qed

lemma query_messages:
  "query fuel env ui ee st n = Some (st', r) \<Longrightarrow> prefix (st_messages st) (st_messages st')"
proof (induction fuel arbitrary: st n st' r)
  case 0
  then show ?case by simp
next
  case (Suc k)
  show ?case
  proof (cases "get_functions env")
    case (Inl e)
    with Suc.prems show ?thesis by (simp add: query_body_def)
  next
    case (Inr settings)
    let ?req = "build_request env settings (st_messages st) n"
    let ?st1 = "st\<lparr>st_trace := st_trace st @ [ChatRequest ?req]\<rparr>"
    show ?thesis
    proof (cases "chat_completions_create env (st_trace st) ?req")
      case (Inl e)
      with Inr Suc.prems show ?thesis by (auto simp: query_body_def Let_def)
    next
      case choices: (Inr choices)
      show ?thesis
      proof (cases choices)
        case Nil
        with Inr choices Suc.prems show ?thesis by (auto simp: query_body_def Let_def py_index_def)
      next
        case (Cons choice rest)
        show ?thesis
        proof (cases "finish_reason choice = ''function_call''")
          case False
          from query_plain_answer[OF Inr choices[unfolded Cons] False, of k ui ee] Suc.prems
          have "process_message env ?st1 (choice_message choice) = (st', r)" by simp
          from process_message_messages[OF this] show ?thesis by simp
        next
          case True
          from query_function_call[OF Inr choices[unfolded Cons] True, of k ui ee] Suc.prems
          obtain st2 r2 where
            e: "execute_function_call (query k env ui ee) env ui ee ?st1 (choice_message choice) (n + 1) =
                  Some (st2, r2)"
            and p: "(\<exists>err. r2 = Inl err \<and> st' = st2) \<or>
                    (\<exists>message. r2 = Inr message \<and> process_message env st2 message = (st', r))"
            by (auto split: option.splits sum.splits prod.splits)
          from execute_function_call_messages[of "query k env ui ee" "n + 1", OF Suc.IH e]
          have "prefix (st_messages st) (st_messages st2)" by simp
          with p show ?thesis by (auto dest: process_message_messages)
        qed
      qed
    qed
  qed
qed

text \<open>
  Extra property X1, the first half of claim C3. With the option not set, a turn on a
  stored conversation id leaves the stored messages of that id as a prefix of the new
  ones, the user message right after them, and every other stored conversation as it
  was; this holds however the turn ends, since the list is extended in place.
\<close>

theorem stored_history_only_grows:
  assumes "\<not> opt_ignore_convoid env"
    and "ui_conversation_id ui = Some cid"
    and "hist cid = Some stored"
    and "async_process fuel env hist tr ui = Some ((hist', tr'), r)"
  shows "(\<exists>added. hist' cid = Some (stored @ user_message env ui # added)) \<and>
         (\<forall>other. other \<noteq> cid \<longrightarrow> hist' other = hist other)"
proof -
  let ?ee = "get_exposed_entities env"
  let ?st0 = "\<lparr>st_trace = tr, st_messages = stored @ [user_message env ui]\<rparr>"
  from assms have t: "run_turn fuel env hist tr ui ?ee (Some cid) True stored = Some ((hist', tr'), r)"
    by (simp add: async_process_def Let_def)
  then obtain st q where q: "query fuel env ui ?ee ?st0 0 = Some (st, q)"
    by (cases "query fuel env ui ?ee ?st0 0") (auto simp: run_turn_def)
  from query_messages[OF q] obtain added where a: "st_messages st = (stored @ [user_message env ui]) @ added"
    by (auto simp: prefix_def)
  show ?thesis
  proof (cases q)
    case (Inl err)
    with t q have "hist' = hist(cid \<mapsto> st_messages st)" by (simp add: run_turn_def)
    with a show ?thesis by simp
  next
    case (Inr x)
    obtain sc response where "x = (sc, response)" by (cases x)
    with t q Inr have "hist' = hist(cid \<mapsto> st_messages st @ [response])"
      by (simp add: run_turn_def Let_def)
    with a show ?thesis by simp
  qed
qed

text \<open>The property at a second turn of a stored conversation.\<close>

theorem stored_history_only_grows_witness:
  "\<exists>hist' tr' r added.
     async_process 1 (example_env 1 False (llm_says ''ok'')) stored_conversation []
       (example_input (Some ''01HF0000000000000000000000'')) = Some ((hist', tr'), r) \<and>
     hist' ''01HF0000000000000000000000'' =
       Some ([\<lparr>msg_role = ''system'', msg_content = Some ''You are a smart home.'', msg_name = None,
                msg_function_call = None\<rparr>,
              \<lparr>msg_role = ''user'', msg_content = Some ''hello'', msg_name = None,
                msg_function_call = None\<rparr>,
              assistant ''Hello.''] @
             user_message (example_env 1 False (llm_says ''ok''))
               (example_input (Some ''01HF0000000000000000000000'')) # added)"
proof -
  let ?env = "example_env 1 False (llm_says ''ok'')"
  let ?ui = "example_input (Some ''01HF0000000000000000000000'')"
  have 1: "\<not> opt_ignore_convoid ?env" by (simp add: example_env_def)
  have 2: "ui_conversation_id ?ui = Some ''01HF0000000000000000000000''"
    by (simp add: example_input_def)
  have 3: "stored_conversation ''01HF0000000000000000000000'' =
       Some [\<lparr>msg_role = ''system'', msg_content = Some ''You are a smart home.'', msg_name = None,
                msg_function_call = None\<rparr>,
              \<lparr>msg_role = ''user'', msg_content = Some ''hello'', msg_name = None,
                msg_function_call = None\<rparr>,
              assistant ''Hello.'']"
    by (simp add: stored_conversation_def)
  have "\<exists>x. async_process 1 ?env stored_conversation [] ?ui = Some x"
    by (simp add: example_env_def stored_conversation_def example_setting_def
      assistant_def llm_says_def example_input_def user_message_def
      async_process_def system_prompt_def run_turn_def
      get_functions_def query_body_def build_request_def py_index_def
      process_message_def clean_content_def remove_json_objects_def str_strip_def
      py_isspace_def Let_def match_json_pattern_def extract_json_objects_def)
  then obtain hist' tr' r where 4: "async_process 1 ?env stored_conversation [] ?ui = Some ((hist', tr'), r)"
    by (metis prod.exhaust)
  from stored_history_only_grows[OF 1 2 3 4] 4 show ?thesis by blast
qed

section \<open>Setting up the entry\<close>

text \<open>
  Claim C7. \<^verbatim>\<open>async_setup_entry\<close> validates first. If the validation raises an
  authentication error, it returns False and the host is as before; if it raises another
  error of the LLM client, \<^verbatim>\<open>ConfigEntryNotReady\<close> is raised and the host is as before; if it
  succeeds, the agent is made, stored in the data of the host under the entry with the
  API key, and registered as the conversation agent of the entry, and the result is True.
  In every case where the validation does not succeed the host is unchanged and the
  result is not True.
\<close>

theorem setup_registers_only_after_validation:
  "(\<forall>api_key m. entry_api_key entry = Some api_key \<and>
       validate_authentication entry api_key = Some (AuthenticationError m) \<longrightarrow>
       async_setup_entry validate_authentication h entry = (h, Inr False)) \<and>
   (\<forall>api_key m. entry_api_key entry = Some api_key \<and>
       validate_authentication entry api_key = Some (OpenAIError m) \<longrightarrow>
       async_setup_entry validate_authentication h entry = (h, Inl (ConfigEntryNotReady m))) \<and>
   (\<forall>api_key. entry_api_key entry = Some api_key \<and>
       validate_authentication entry api_key = None \<longrightarrow>
       async_setup_entry validate_authentication h entry =
         (h\<lparr>hass_data := (hass_data h)(entry_id entry \<mapsto>
               \<lparr>data_api_key = api_key,
                data_agent = \<lparr>agent_entry = entry, agent_history = Map.empty\<rparr>\<rparr>),
             hass_agents := (hass_agents h)(entry_id entry \<mapsto>
               \<lparr>agent_entry = entry, agent_history = Map.empty\<rparr>)\<rparr>,
          Inr True)) \<and>
   ((\<nexists>api_key. entry_api_key entry = Some api_key \<and>
        validate_authentication entry api_key = None) \<longrightarrow>
      fst (async_setup_entry validate_authentication h entry) = h \<and>
      snd (async_setup_entry validate_authentication h entry) \<noteq> Inr True)"
  by (auto simp: async_setup_entry_def Let_def split: option.splits error.splits)

text \<open>The theorem at a revoked key, at an endpoint that cannot be reached and at a valid key.\<close>

theorem setup_registers_only_after_validation_witness:
  "async_setup_entry validate_example \<lparr>hass_data = Map.empty, hass_agents = Map.empty\<rparr>
     \<lparr>entry_id = ''e1'', entry_api_key = Some ''sk-revoked''\<rparr> =
     (\<lparr>hass_data = Map.empty, hass_agents = Map.empty\<rparr>, Inr False) \<and>
   async_setup_entry validate_example \<lparr>hass_data = Map.empty, hass_agents = Map.empty\<rparr>
     \<lparr>entry_id = ''e1'', entry_api_key = Some ''sk-offline''\<rparr> =
     (\<lparr>hass_data = Map.empty, hass_agents = Map.empty\<rparr>, Inl (ConfigEntryNotReady ''connection error'')) \<and>
   hass_agents (fst (async_setup_entry validate_example
       \<lparr>hass_data = Map.empty, hass_agents = Map.empty\<rparr>
       \<lparr>entry_id = ''e1'', entry_api_key = Some ''sk-valid''\<rparr>)) ''e1'' =
     Some \<lparr>agent_entry = \<lparr>entry_id = ''e1'', entry_api_key = Some ''sk-valid''\<rparr>,
           agent_history = Map.empty\<rparr> \<and>
   snd (async_setup_entry validate_example
       \<lparr>hass_data = Map.empty, hass_agents = Map.empty\<rparr>
       \<lparr>entry_id = ''e1'', entry_api_key = Some ''sk-valid''\<rparr>) = Inr True"
  using
    setup_registers_only_after_validation[of "\<lparr>entry_id = ''e1'', entry_api_key = Some ''sk-revoked''\<rparr>"
      validate_example "\<lparr>hass_data = Map.empty, hass_agents = Map.empty\<rparr>"]
    setup_registers_only_after_validation[of "\<lparr>entry_id = ''e1'', entry_api_key = Some ''sk-offline''\<rparr>"
      validate_example "\<lparr>hass_data = Map.empty, hass_agents = Map.empty\<rparr>"]
    setup_registers_only_after_validation[of "\<lparr>entry_id = ''e1'', entry_api_key = Some ''sk-valid''\<rparr>"
      validate_example "\<lparr>hass_data = Map.empty, hass_agents = Map.empty\<rparr>"]
  by (simp add: validate_example_def)

end
